theory Spec2Isabelle
  imports Complex_Main "HOL-Library.Multiset" "HOL-Library.Sublist"
begin

text \<open>
  A shallow embedding of the numerical core of SurvivalNet's example driver and cluster
  analysis: the risk-set construction, the train/validation/test shuffles of
  \<^verbatim>\<open>examples/Run1.py\<close>, and \<^verbatim>\<open>RiskCluster\<close> with \<^verbatim>\<open>ClusterAssociations\<close> from
  \<^verbatim>\<open>survivalnet/analysis/RiskCluster.py\<close>. Functions of numpy and scipy whose results the
  program only passes on (the statistical tests, the column mean, the sort, the random
  permutation, the agglomeration) are parameters of the model; those whose arithmetic or
  algorithm a property depends on are written out as their documentation or their source
  describes them. Every exception the modelled code can raise is a value of type
  \<open>error\<close>.
\<close>

section \<open>Numbers and errors\<close>

text \<open>
  A Python/numpy float. Finite values are idealised as reals (rounding is not modelled);
  the two infinities and NaN are kept, because the comparisons of the program
  (\<^verbatim>\<open>==\<close>, \<^verbatim>\<open><\<close>, \<^verbatim>\<open>></\<close>)
  and its one division treat them specially.
\<close>

datatype pyfloat = Fin real | PInf | NInf | NaN

text \<open>IEEE \<^verbatim>\<open>a < b\<close>: false as soon as one side is NaN.\<close>

fun flt :: "pyfloat \<Rightarrow> pyfloat \<Rightarrow> bool" where
  "flt (Fin a) (Fin b) = (a < b)"
| "flt (Fin a) PInf = True"
| "flt NInf (Fin b) = True"
| "flt NInf PInf = True"
| "flt _ _ = False"

text \<open>IEEE \<^verbatim>\<open>a > b\<close>.\<close>

definition fgt :: "pyfloat \<Rightarrow> pyfloat \<Rightarrow> bool" where
  "fgt a b = flt b a"

text \<open>IEEE \<^verbatim>\<open>a == b\<close>: NaN is equal to nothing, itself included.\<close>

definition feq :: "pyfloat \<Rightarrow> pyfloat \<Rightarrow> bool" where
  "feq a b = (a \<noteq> NaN \<and> a = b)"

text \<open>numpy's float division of two finite numbers: \<^verbatim>\<open>0/0\<close> is NaN,
  \<^verbatim>\<open>x/0\<close> an infinity (a warning, not an exception).\<close>

definition fdiv :: "real \<Rightarrow> real \<Rightarrow> pyfloat" where
  "fdiv x y =
     (if y = 0 then (if x = 0 then NaN else if 0 < x then PInf else NInf)
      else Fin (x / y))"

datatype error = ValueError | IndexError | UnboundLocalError | LibraryError

section \<open>Risk sets (\<^verbatim>\<open>SurvivalAnalysis.calc_at_risk\<close>)\<close>

text \<open>
  Modelled from the spec: \<^verbatim>\<open>survivalnet.optimization.SurvivalAnalysis.calc_at_risk\<close>
  is called by \<^verbatim>\<open>examples/Run1.py\<close> but its module is not among the sources. The spec's
  contract (section 4.1): \<^verbatim>\<open>BuildRiskSet(X, T, O) -> (X, T, O, A)\<close>, where
  \<^verbatim>\<open>A[i][j] = 1 if T[j] > T[i], else 0\<close>, and a ValueError when the leading dimensions of
  \<^verbatim>\<open>X\<close>, \<^verbatim>\<open>T\<close> and \<^verbatim>\<open>O\<close> differ.
\<close>

definition at_risk_row :: "pyfloat list \<Rightarrow> pyfloat \<Rightarrow> nat list" where
  "at_risk_row T ti = map (\<lambda>tj. if fgt tj ti then 1 else 0) T"

definition BuildRiskSet ::
  "'x list \<Rightarrow> pyfloat list \<Rightarrow> int list
     \<Rightarrow> error + ('x list \<times> pyfloat list \<times> int list \<times> nat list list)" where
  "BuildRiskSet X T Obs =
     (if length X = length T \<and> length T = length Obs
      then Inr (X, T, Obs, map (at_risk_row T) T)
      else Inl ValueError)"

section \<open>Cluster associations (\<^verbatim>\<open>RiskCluster.ClusterAssociations\<close>)\<close>

subsection \<open>Python and numpy primitives used by the function\<close>

text \<open>\<^verbatim>\<open>str.rfind(s, c)\<close>: the highest index of \<open>c\<close> in \<open>s\<close>, or \<open>-1\<close>.\<close>

fun rfind_from :: "char \<Rightarrow> string \<Rightarrow> nat \<Rightarrow> int \<Rightarrow> int" where
  "rfind_from c [] i found = found"
| "rfind_from c (x # xs) i found = rfind_from c xs (Suc i) (if x = c then int i else found)"

definition rfind :: "string \<Rightarrow> char \<Rightarrow> int" where
  "rfind s c = rfind_from c s 0 (- 1)"

text \<open>\<^verbatim>\<open>[index for index, x in enumerate(xs) if P(x)]\<close>.\<close>

definition indices_where :: "('a \<Rightarrow> bool) \<Rightarrow> 'a list \<Rightarrow> nat list" where
  "indices_where P xs = map fst (filter (\<lambda>(index, x). P x) (enumerate 0 xs))"

text \<open>\<^verbatim>\<open>np.max(Labels)\<close>: a ValueError on an empty array.\<close>

fun np_max :: "int list \<Rightarrow> error + int" where
  "np_max [] = Inl ValueError"
| "np_max (x # xs) = Inr (fold max xs x)"

text \<open>
  A numpy matrix is a list of rows (samples) of equal length. \<^verbatim>\<open>Raw[Labels == j, col]\<close>
  selects, from column \<open>col\<close>, the rows whose label is \<open>j\<close>; numpy raises IndexError when
  the boolean mask and the matrix differ in length, or the column does not exist.
\<close>

type_synonym matrix = "pyfloat list list"

definition masked_column :: "matrix \<Rightarrow> int list \<Rightarrow> int \<Rightarrow> nat \<Rightarrow> error + pyfloat list" where
  "masked_column Raw Labels j col =
     (if length Labels \<noteq> length Raw \<or> \<not> list_all (\<lambda>row. col < length row) Raw
      then Inl IndexError
      else Inr (map (\<lambda>(l, row). row ! col) (filter (\<lambda>(l, row). l = j) (zip Labels Raw))))"

text \<open>\<^verbatim>\<open>np.sum(values == v)\<close>: the number of entries IEEE-equal to \<open>v\<close>.\<close>

definition count_eq :: "real \<Rightarrow> pyfloat list \<Rightarrow> nat" where
  "count_eq v values = length (filter (\<lambda>x. feq x (Fin v)) values)"

text \<open>A loop whose body may raise: the first error ends it.\<close>

fun fold_err :: "('a \<Rightarrow> 's \<Rightarrow> error + 's) \<Rightarrow> 'a list \<Rightarrow> 's \<Rightarrow> error + 's" where
  "fold_err f [] s = Inr s"
| "fold_err f (x # xs) s = (case f x s of Inl e \<Rightarrow> Inl e | Inr s' \<Rightarrow> fold_err f xs s')"

fun map_err :: "('a \<Rightarrow> error + 'b) \<Rightarrow> 'a list \<Rightarrow> error + 'b list" where
  "map_err f [] = Inr []"
| "map_err f (x # xs) =
     (case f x of Inl e \<Rightarrow> Inl e
      | Inr y \<Rightarrow> (case map_err f xs of Inl e \<Rightarrow> Inl e | Inr ys \<Rightarrow> Inr (y # ys)))"

subsection \<open>Feature types from symbol suffixes (lines 237--241)\<close>

text \<open>\<^verbatim>\<open>Symbol[str.rfind(str(Symbol), '_')+1:]\<close>\<close>

definition symbol_suffix :: "string \<Rightarrow> string" where
  "symbol_suffix Symbol = drop (nat (rfind Symbol CHR ''_'' + 1)) Symbol"

definition Mutations_of :: "string list \<Rightarrow> nat list" where
  "Mutations_of Symbols = indices_where (\<lambda>x. x = ''Mut'') (map symbol_suffix Symbols)"

definition CNVs_of :: "string list \<Rightarrow> nat list" where
  "CNVs_of Symbols = indices_where (\<lambda>x. x = ''CNV'') (map symbol_suffix Symbols)"

subsection \<open>The mutation test (lines 244--258)\<close>

text \<open>
  The observed table: two rows (value 0, value 1) and \<open>K\<close> columns (clusters \<open>1..K\<close>),
  filled by the loop over \<open>j\<close>.
\<close>

definition set_cell :: "nat list list \<Rightarrow> nat \<Rightarrow> nat \<Rightarrow> nat \<Rightarrow> nat list list" where
  "set_cell M r c v = M[r := (M ! r)[c := v]]"

definition Observed_step ::
  "matrix \<Rightarrow> int list \<Rightarrow> nat \<Rightarrow> int \<Rightarrow> nat list list \<Rightarrow> error + nat list list" where
  "Observed_step Raw Labels col j Observed =
     (case masked_column Raw Labels j col of
        Inl e \<Rightarrow> Inl e
      | Inr values \<Rightarrow>
          Inr (set_cell (set_cell Observed 0 (nat (j - 1)) (count_eq 0 values))
                 1 (nat (j - 1)) (count_eq 1 values)))"

definition Observed_table ::
  "matrix \<Rightarrow> int list \<Rightarrow> nat \<Rightarrow> int \<Rightarrow> error + nat list list" where
  "Observed_table Raw Labels col K =
     (if K < 0 then Inl ValueError
      else fold_err (Observed_step Raw Labels col) [1..K]
             (replicate 2 (replicate (nat K) 0)))"

definition contingency :: "matrix \<Rightarrow> int list \<Rightarrow> nat \<Rightarrow> error + nat list list" where
  "contingency Raw Labels col =
     (case np_max Labels of Inl e \<Rightarrow> Inl e | Inr K \<Rightarrow> Observed_table Raw Labels col K)"

text \<open>
  \<^verbatim>\<open>RowSum = np.sum(Observed, axis=0)\<close> (one total per cluster),
  \<^verbatim>\<open>ColSum = np.sum(Observed, axis=1)\<close> (one total per value) and
  \<^verbatim>\<open>Expected = np.outer(ColSum, RowSum) / np.sum(Observed.flatten())\<close>.
\<close>

definition sum_axis0 :: "nat list list \<Rightarrow> nat list" where
  "sum_axis0 M = map (\<lambda>c. sum_list (map (\<lambda>row. row ! c) M)) [0..<length (hd M)]"

definition sum_axis1 :: "nat list list \<Rightarrow> nat list" where
  "sum_axis1 M = map sum_list M"

definition outer :: "nat list \<Rightarrow> nat list \<Rightarrow> nat list list" where
  "outer a b = map (\<lambda>x. map (\<lambda>y. x * y) b) a"

definition Expected :: "nat list list \<Rightarrow> pyfloat list list" where
  "Expected Observed =
     (let RowSum = sum_axis0 Observed;
          ColSum = sum_axis1 Observed;
          total = sum_list (concat Observed)
      in map (map (\<lambda>v. fdiv (real v) (real total))) (outer ColSum RowSum))"

text \<open>
  \<^verbatim>\<open>scipy.stats.chisquare\<close> and \<^verbatim>\<open>scipy.stats.mstats.kruskalwallis\<close> are library
  functions: they are parameters of the model. Each returns the p-value, or raises.
\<close>

type_synonym chisquare_fn = "nat list list \<Rightarrow> pyfloat list list \<Rightarrow> nat \<Rightarrow> error + pyfloat"
type_synonym kruskalwallis_fn = "pyfloat list list \<Rightarrow> error + pyfloat"

text \<open>
  The loop state: the list \<^verbatim>\<open>Significant\<close> and the local variable \<^verbatim>\<open>p\<close>, which is
  unbound (\<open>None\<close>) until a test has assigned it.
\<close>

type_synonym assoc_state = "string list \<times> pyfloat option"

definition mutation_step ::
  "chisquare_fn \<Rightarrow> matrix \<Rightarrow> string list \<Rightarrow> int list \<Rightarrow> pyfloat \<Rightarrow> nat
     \<Rightarrow> assoc_state \<Rightarrow> error + assoc_state" where
  "mutation_step chisquare Raw Symbols Labels Tau col st =
     (case contingency Raw Labels col of
        Inl e \<Rightarrow> Inl e
      | Inr Observed \<Rightarrow>
          (case chisquare Observed (Expected Observed) 1 of
             Inl e \<Rightarrow> Inl e
           | Inr p \<Rightarrow>
               Inr (if flt p Tau then fst st @ [Symbols ! col] else fst st, Some p)))"

subsection \<open>The copy-number test (lines 261--287)\<close>

definition kruskal_groups ::
  "kruskalwallis_fn \<Rightarrow> matrix \<Rightarrow> int list \<Rightarrow> nat \<Rightarrow> int list \<Rightarrow> error + pyfloat option" where
  "kruskal_groups kruskalwallis Raw Labels col js =
     (case map_err (\<lambda>j. masked_column Raw Labels j col) js of
        Inl e \<Rightarrow> Inl e
      | Inr groups \<Rightarrow>
          (case kruskalwallis groups of Inl e \<Rightarrow> Inl e | Inr p \<Rightarrow> Inr (Some p)))"

text \<open>
  The four branches assign \<^verbatim>\<open>p\<close>; for any other maximum label no branch runs and
  \<^verbatim>\<open>p\<close> keeps the value it had. The test \<^verbatim>\<open>if p < Tau\<close> follows in every case, and
  reading an unbound \<^verbatim>\<open>p\<close> raises UnboundLocalError.
\<close>

definition cnv_step ::
  "kruskalwallis_fn \<Rightarrow> matrix \<Rightarrow> string list \<Rightarrow> int list \<Rightarrow> pyfloat \<Rightarrow> nat
     \<Rightarrow> assoc_state \<Rightarrow> error + assoc_state" where
  "cnv_step kruskalwallis Raw Symbols Labels Tau col st =
     (case np_max Labels of
        Inl e \<Rightarrow> Inl e
      | Inr K \<Rightarrow>
          (case (if K = 2 then kruskal_groups kruskalwallis Raw Labels col [1, 2]
                 else if K = 3 then kruskal_groups kruskalwallis Raw Labels col [1, 2, 3]
                 else if K = 4 then kruskal_groups kruskalwallis Raw Labels col [1, 2, 3, 4]
                 else if K = 5 then kruskal_groups kruskalwallis Raw Labels col [1, 2, 3, 4, 5]
                 else Inr (snd st)) of
             Inl e \<Rightarrow> Inl e
           | Inr None \<Rightarrow> Inl UnboundLocalError
           | Inr (Some p) \<Rightarrow>
               Inr (if flt p Tau then fst st @ [Symbols ! col] else fst st, Some p)))"

subsection \<open>The function\<close>

definition ClusterAssociations ::
  "chisquare_fn \<Rightarrow> kruskalwallis_fn \<Rightarrow> matrix \<Rightarrow> string list \<Rightarrow> int list \<Rightarrow> pyfloat
     \<Rightarrow> error + string list" where
  "ClusterAssociations chisquare kruskalwallis Raw Symbols Labels Tau =
     (case fold_err (mutation_step chisquare Raw Symbols Labels Tau)
             (Mutations_of Symbols) ([], None) of
        Inl e \<Rightarrow> Inl e
      | Inr st \<Rightarrow>
          (case fold_err (cnv_step kruskalwallis Raw Symbols Labels Tau)
                  (CNVs_of Symbols) st of
             Inl e \<Rightarrow> Inl e
           | Inr st' \<Rightarrow> Inr (fst st')))"

subsection \<open>The mutation test as the specification words it\<close>

text \<open>
  The number of samples of cluster \<open>k\<close> whose raw value of feature \<open>col\<close> is \<open>v\<close>; the
  \<open>2 \<times> K\<close> table of these counts for the values 0 and 1 and the clusters \<open>1..K\<close>; the
  expected counts (row total times column total over the table total); and the decision
  of the chi-square test with \<^verbatim>\<open>ddof = 1\<close> on them.
\<close>

definition cluster_count :: "matrix \<Rightarrow> int list \<Rightarrow> nat \<Rightarrow> real \<Rightarrow> int \<Rightarrow> nat" where
  "cluster_count Raw Labels col v k =
     length (filter (\<lambda>s. Labels ! s = k \<and> feq (Raw ! s ! col) (Fin v)) [0..<length Raw])"

definition contingency_spec :: "matrix \<Rightarrow> int list \<Rightarrow> nat \<Rightarrow> nat \<Rightarrow> nat list list" where
  "contingency_spec Raw Labels col K =
     map (\<lambda>v. map (\<lambda>k. cluster_count Raw Labels col v (int k + 1)) [0..<K]) [0, 1]"

definition expected_spec :: "nat list list \<Rightarrow> pyfloat list list" where
  "expected_spec tab =
     map (\<lambda>r. map (\<lambda>k. fdiv (real (sum_list (tab ! r) * (tab ! 0 ! k + tab ! 1 ! k)))
                         (real (sum_list (tab ! 0) + sum_list (tab ! 1))))
              [0..<length (tab ! 0)]) [0, 1]"

definition mutation_significant ::
  "chisquare_fn \<Rightarrow> matrix \<Rightarrow> int list \<Rightarrow> pyfloat \<Rightarrow> nat \<Rightarrow> nat \<Rightarrow> bool" where
  "mutation_significant chisquare Raw Labels Tau K col =
     (let tab = contingency_spec Raw Labels col K
      in case chisquare tab (expected_spec tab) 1 of Inl e \<Rightarrow> False | Inr p \<Rightarrow> flt p Tau)"

text \<open>
  The values of feature \<open>col\<close> over the samples of cluster \<open>j\<close>, and the decision of the
  Kruskal-Wallis test on the groups of the clusters \<open>1..K\<close>.
\<close>

definition cluster_values :: "matrix \<Rightarrow> int list \<Rightarrow> nat \<Rightarrow> int \<Rightarrow> pyfloat list" where
  "cluster_values Raw Labels col j =
     map (\<lambda>s. Raw ! s ! col) (filter (\<lambda>s. Labels ! s = j) [0..<length Raw])"

definition cnv_significant ::
  "kruskalwallis_fn \<Rightarrow> matrix \<Rightarrow> int list \<Rightarrow> pyfloat \<Rightarrow> int \<Rightarrow> nat \<Rightarrow> bool" where
  "cnv_significant kruskalwallis Raw Labels Tau K col =
     (case kruskalwallis (map (cluster_values Raw Labels col) [1..K]) of
        Inl e \<Rightarrow> False
      | Inr p \<Rightarrow> flt p Tau)"

text \<open>The intermediate tables of the loop over the clusters: columns \<open>0..m-1\<close> filled.\<close>

definition partial_row :: "matrix \<Rightarrow> int list \<Rightarrow> nat \<Rightarrow> nat \<Rightarrow> nat \<Rightarrow> real \<Rightarrow> nat list" where
  "partial_row Raw Labels col K m v =
     map (\<lambda>k. if k < m then cluster_count Raw Labels col v (int k + 1) else 0) [0..<K]"

text \<open>
  The samples that reach the table of feature \<open>col\<close>: those whose label is one of
  \<open>1..K\<close> and whose raw value is exactly 0 or exactly 1; and the data set with every other
  sample removed.
\<close>

definition contributing :: "matrix \<Rightarrow> int list \<Rightarrow> nat \<Rightarrow> int \<Rightarrow> nat list" where
  "contributing Raw Labels col K =
     filter (\<lambda>s. 1 \<le> Labels ! s \<and> Labels ! s \<le> K
                 \<and> (feq (Raw ! s ! col) (Fin 0) \<or> feq (Raw ! s ! col) (Fin 1)))
       [0..<length Raw]"

definition binary_rows :: "matrix \<Rightarrow> int list \<Rightarrow> nat \<Rightarrow> (int \<times> pyfloat list) list" where
  "binary_rows Raw Labels col =
     filter (\<lambda>(l, row). feq (row ! col) (Fin 0) \<or> feq (row ! col) (Fin 1)) (zip Labels Raw)"

text \<open>
  A cell of the table whose chi-square term \<^verbatim>\<open>(f_obs - f_exp)**2 / f_exp\<close> is NaN: its
  expected count is NaN, or it is 0 with an observed count of 0 (\<^verbatim>\<open>0/0\<close>). A chi-square
  routine propagates NaN when every pair of tables of one shape with such a cell gets the
  p-value NaN and no exception.
\<close>

definition degenerate_cell :: "nat list list \<Rightarrow> pyfloat list list \<Rightarrow> bool" where
  "degenerate_cell Observed Expected' =
     list_ex (\<lambda>r. list_ex (\<lambda>k. Expected' ! r ! k = NaN
                              \<or> (Expected' ! r ! k = Fin 0 \<and> Observed ! r ! k = 0))
                     [0..<length (Observed ! r)])
       [0..<length Observed]"

definition propagates_nan :: "chisquare_fn \<Rightarrow> bool" where
  "propagates_nan chisquare =
     (\<forall>Observed Expected' ddof.
        map length Observed = map length Expected' \<and> degenerate_cell Observed Expected'
          \<longrightarrow> chisquare Observed Expected' ddof = Inr NaN)"

text \<open>A row total or a column total of the table is 0.\<close>

definition zero_marginal :: "nat list list \<Rightarrow> bool" where
  "zero_marginal Observed =
     (list_ex (\<lambda>row. sum_list row = 0) Observed
      \<or> list_ex (\<lambda>k. sum_list (map (\<lambda>row. row ! k) Observed) = 0) [0..<length (hd Observed)])"

subsection \<open>The chi-square routine of scipy\<close>

text \<open>
  \<^verbatim>\<open>scipy.stats.chisquare(f_obs, f_exp, ddof, axis=None)\<close> as scipy documents it: the
  statistic is the sum over all cells of \<^verbatim>\<open>(f_obs - f_exp)**2 / f_exp\<close>, in IEEE
  arithmetic, and the p-value is the survival function of the chi-square distribution at
  the statistic, with \<open>k - 1 - ddof\<close> degrees of freedom for \<open>k\<close> cells. The survival
  function is the parameter \<open>sf\<close>.
\<close>

fun fadd :: "pyfloat \<Rightarrow> pyfloat \<Rightarrow> pyfloat" where
  "fadd (Fin a) (Fin b) = Fin (a + b)"
| "fadd NaN _ = NaN"
| "fadd _ NaN = NaN"
| "fadd PInf NInf = NaN"
| "fadd NInf PInf = NaN"
| "fadd PInf _ = PInf"
| "fadd _ PInf = PInf"
| "fadd NInf _ = NInf"
| "fadd _ NInf = NInf"

fun chi_term :: "nat \<Rightarrow> pyfloat \<Rightarrow> pyfloat" where
  "chi_term f_obs (Fin f_exp) = fdiv ((real f_obs - f_exp)\<^sup>2) f_exp"
| "chi_term f_obs _ = NaN"

definition chisquare_scipy :: "(pyfloat \<Rightarrow> int \<Rightarrow> pyfloat) \<Rightarrow> chisquare_fn" where
  "chisquare_scipy sf f_obs f_exp ddof =
     (if map length f_obs \<noteq> map length f_exp then Inl ValueError
      else Inr (sf (foldl fadd (Fin 0) (map2 chi_term (concat f_obs) (concat f_exp)))
                   (int (length (concat f_obs)) - 1 - int ddof)))"

subsection \<open>A concrete data set and concrete library results\<close>

text \<open>
  Eight samples in two clusters of four; feature 0 is 0 throughout cluster 1 and 1
  throughout cluster 2, so its table is \<open>[[4, 0], [0, 4]]\<close> with every expected count 2,
  the statistic is 8 and, with \<^verbatim>\<open>ddof = 1\<close>, there are 2 degrees of freedom. The
  chi-square survival function for 2 degrees of freedom is \<open>exp (- x / 2)\<close>; \<open>example_sf\<close>
  is that function whatever the degrees of freedom, and \<open>example_kruskalwallis\<close> returns
  0.5 for every grouping.
\<close>

definition example_sf :: "pyfloat \<Rightarrow> int \<Rightarrow> pyfloat" where
  "example_sf stat df =
     (case stat of Fin x \<Rightarrow> Fin (exp (- x / 2)) | PInf \<Rightarrow> Fin 0 | NInf \<Rightarrow> Fin 1 | NaN \<Rightarrow> NaN)"

definition example_chisquare :: chisquare_fn where
  "example_chisquare = chisquare_scipy example_sf"

definition example_kruskalwallis :: kruskalwallis_fn where
  "example_kruskalwallis groups = Inr (Fin (1 / 2))"

definition example_Raw :: matrix where
  "example_Raw = [[Fin 0, Fin 3], [Fin 0, Fin 4], [Fin 0, Fin 1], [Fin 0, Fin 2],
                  [Fin 1, Fin 5], [Fin 1, Fin 3], [Fin 1, Fin 6], [Fin 1, Fin 7]]"

definition example_Labels :: "int list" where
  "example_Labels = [1, 1, 1, 1, 2, 2, 2, 2]"

text \<open>
  The same data with a ninth sample, alone in cluster 3, whose value of feature 0 is 2.
\<close>

definition outlier_Raw :: matrix where
  "outlier_Raw = example_Raw @ [[Fin 2, Fin 0]]"

definition outlier_Labels :: "int list" where
  "outlier_Labels = example_Labels @ [3]"

section \<open>Feature ranking of \<^verbatim>\<open>RiskCluster\<close> (lines 76--80)\<close>

text \<open>
  \<^verbatim>\<open>Gradients\<close> is a numpy array with one row per sample and \<open>n_features\<close> columns
  (\<^verbatim>\<open>Gradients.shape[1]\<close>, which an array without rows keeps): every row has
  \<open>n_features\<close> entries. The mean of one column is
  numpy's: it is computed in double precision, with rounding, so it is a parameter of the
  model (\<open>np_mean\<close>), and \<^verbatim>\<open>np.mean(Gradients, axis=0)\<close> is the list of its values on the
  columns.
\<close>

type_synonym mean_fn = "pyfloat list \<Rightarrow> pyfloat"

definition column :: "matrix \<Rightarrow> nat \<Rightarrow> pyfloat list" where
  "column M c = map (\<lambda>row. row ! c) M"

definition mean_axis0 :: "mean_fn \<Rightarrow> nat \<Rightarrow> matrix \<Rightarrow> pyfloat list" where
  "mean_axis0 np_mean n_features M = map (\<lambda>c. np_mean (column M c)) [0..<n_features]"

fun fabs :: "pyfloat \<Rightarrow> pyfloat" where
  "fabs (Fin x) = Fin \<bar>x\<bar>"
| "fabs PInf = PInf"
| "fabs NInf = PInf"
| "fabs NaN = NaN"

fun fneg :: "pyfloat \<Rightarrow> pyfloat" where
  "fneg (Fin x) = Fin (- x)"
| "fneg PInf = NInf"
| "fneg NInf = PInf"
| "fneg NaN = NaN"

text \<open>
  \<^verbatim>\<open>Order = np.argsort(-np.abs(np.mean(Gradients, axis=0)))\<close>: \<^verbatim>\<open>np.argsort\<close> is numpy's
  and a parameter of the model, called with its default \<^verbatim>\<open>kind\<close>, quicksort, which numpy
  documents as not stable. Its result is \<open>None\<close> where a model of the library does not
  say what it returns.
\<close>

type_synonym argsort_fn = "pyfloat list \<Rightarrow> nat list option"

definition feature_scores :: "mean_fn \<Rightarrow> nat \<Rightarrow> matrix \<Rightarrow> pyfloat list" where
  "feature_scores np_mean n_features Gradients =
     map (\<lambda>m. fneg (fabs m)) (mean_axis0 np_mean n_features Gradients)"

definition Order :: "mean_fn \<Rightarrow> argsort_fn \<Rightarrow> nat \<Rightarrow> matrix \<Rightarrow> nat list option" where
  "Order np_mean argsort n_features Gradients =
     argsort (feature_scores np_mean n_features Gradients)"

text \<open>\<^verbatim>\<open>xs[0:N]\<close>: a negative \<open>N\<close> counts from the end.\<close>

definition slice_to :: "int \<Rightarrow> 'a list \<Rightarrow> 'a list" where
  "slice_to N xs = (if 0 \<le> N then take (nat N) xs else take (length xs - nat (- N)) xs)"

definition top_features ::
  "mean_fn \<Rightarrow> argsort_fn \<Rightarrow> nat \<Rightarrow> matrix \<Rightarrow> int \<Rightarrow> nat list option" where
  "top_features np_mean argsort n_features Gradients N =
     map_option (slice_to N) (Order np_mean argsort n_features Gradients)"

text \<open>
  numpy compares floating-point keys with \<^verbatim>\<open>a < b || (b != b && a == a)\<close>: NaN is larger
  than every number. What numpy promises of the result \<open>order\<close> of \<^verbatim>\<open>argsort\<close> on the
  array \<open>xs\<close>: a permutation of the indices along which the values do not decrease in that
  comparison. Nothing is promised about equal values.
\<close>

definition np_less :: "pyfloat \<Rightarrow> pyfloat \<Rightarrow> bool" where
  "np_less a b = (flt a b \<or> (b = NaN \<and> a \<noteq> NaN))"

definition argsort_ok :: "nat list \<Rightarrow> pyfloat list \<Rightarrow> bool" where
  "argsort_ok order xs =
     (mset order = mset [0..<length xs]
      \<and> sorted_wrt (\<lambda>i j. \<not> np_less (xs ! j) (xs ! i)) order)"

text \<open>
  The score of a feature: the absolute value of its mean gradient. \<open>not_below a b\<close>: the
  score \<open>a\<close> is at least the score \<open>b\<close>, a NaN score counting as the smallest.
\<close>

definition abs_mean :: "mean_fn \<Rightarrow> matrix \<Rightarrow> nat \<Rightarrow> pyfloat" where
  "abs_mean np_mean Gradients c = fabs (np_mean (column Gradients c))"

definition not_below :: "pyfloat \<Rightarrow> pyfloat \<Rightarrow> bool" where
  "not_below a b = (\<not> flt a b \<and> (a = NaN \<longrightarrow> b = NaN))"

subsection \<open>The quicksort behind \<^verbatim>\<open>np.argsort\<close>\<close>

text \<open>
  For double-precision keys and the default \<^verbatim>\<open>kind\<close>, \<^verbatim>\<open>np.argsort\<close> fills \<^verbatim>\<open>tosort\<close>
  with \<open>0..n-1\<close> and runs the generic \<^verbatim>\<open>aquicksort\<close> of numpy's \<^verbatim>\<open>npysort/quicksort\<close> on
  it: an explicit stack of pending ranges \<open>[pl, pr]\<close>; while a range has more than 16
  elements beyond \<open>pl\<close>, a median-of-three partition whose larger part is pushed; an
  insertion sort of each range of at most 17 elements; and a depth budget \<open>cdepth\<close> of
  twice the position of the highest bit of \<open>n\<close>, below which the C code switches to
  heapsort. The functions below follow the C code statement by statement, \<open>t\<close> being
  \<^verbatim>\<open>tosort\<close>, \<open>v\<close> the keys, \<open>lo\<close> and \<open>hi\<close> the pointers \<^verbatim>\<open>pl\<close> and \<^verbatim>\<open>pr\<close> as indices.
\<close>

text \<open>\<^verbatim>\<open>INTP_SWAP(t[a], t[b])\<close>\<close>

definition intp_swap :: "nat list \<Rightarrow> nat \<Rightarrow> nat \<Rightarrow> nat list" where
  "intp_swap t a b = (t[a := t ! b])[b := t ! a]"

text \<open>
  \<^verbatim>\<open>do { ++pi; } while (less(v[*pi], vp));\<close> and \<^verbatim>\<open>do { --pj; } while (less(vp, v[*pj]));\<close>.
  In the C code the pivot stored at \<open>pr - 1\<close> and the smallest of the three medians at
  \<open>pl\<close> stop the two scans; the bounds on the index here only make the functions total.
\<close>

function scan_up :: "pyfloat list \<Rightarrow> nat list \<Rightarrow> pyfloat \<Rightarrow> nat \<Rightarrow> nat" where
  "scan_up v t vp i =
     (if Suc i < length t \<and> np_less (v ! (t ! Suc i)) vp then scan_up v t vp (Suc i) else Suc i)"
  by pat_completeness auto

termination
  by (relation "measure (\<lambda>(v, t, vp, i). length t - i)") auto

declare scan_up.simps [simp del]

fun scan_down :: "pyfloat list \<Rightarrow> nat list \<Rightarrow> pyfloat \<Rightarrow> nat \<Rightarrow> nat" where
  "scan_down v t vp j =
     (if 1 < j \<and> np_less vp (v ! (t ! (j - 1))) then scan_down v t vp (j - 1) else j - 1)"

declare scan_down.simps [simp del]

text \<open>
  \<^verbatim>\<open>for (;;) { scan up; scan down; if (pi >= pj) break; INTP_SWAP(*pi, *pj); }\<close>: the
  result is \<^verbatim>\<open>tosort\<close> and the final \<^verbatim>\<open>pi\<close>.
\<close>

function partition_loop ::
  "pyfloat list \<Rightarrow> pyfloat \<Rightarrow> nat list \<Rightarrow> nat \<Rightarrow> nat \<Rightarrow> nat list \<times> nat" where
  "partition_loop v vp t i j =
     (let i' = scan_up v t vp i; j' = scan_down v t vp j
      in if j' \<le> i' then (t, i') else partition_loop v vp (intp_swap t i' j') i' j')"
  by pat_completeness auto

termination
proof (relation "measure (\<lambda>(v, vp, t, i, j). j - i)")
  show "wf (measure (\<lambda>(v, vp, t, i, j). j - i))"
    by simp
next
  fix v vp t i j x xa
  assume scans: "x = scan_up v t vp i" "xa = scan_down v t vp j" and more_to_do: "\<not> xa \<le> x"
  have up: "i < scan_up v t vp i"
    by (induction v t vp i rule: scan_up.induct) (subst scan_up.simps, auto)
  have down: "scan_down v t vp j \<le> j"
    by (induction v t vp j rule: scan_down.induct) (subst scan_down.simps, auto)
  from scans more_to_do up down
  show "((v, vp, intp_swap t x xa, x, xa), v, vp, t, i, j) \<in> measure (\<lambda>(v, vp, t, i, j). j - i)"
    by simp
qed

declare partition_loop.simps [simp del]

text \<open>
  The three conditional swaps that leave the median of \<open>v[t[pl]]\<close>, \<open>v[t[pm]]\<close>,
  \<open>v[t[pr]]\<close> at \<open>pm\<close>, and the partition of the range \<open>[pl, pr]\<close>: the pivot is moved to
  \<open>pr - 1\<close>, the loop runs from \<open>pi = pl\<close> and \<open>pj = pr - 1\<close>, and the pivot is swapped to
  its final place \<open>pi\<close>.
\<close>

definition median_of_three :: "pyfloat list \<Rightarrow> nat list \<Rightarrow> nat \<Rightarrow> nat \<Rightarrow> nat \<Rightarrow> nat list" where
  "median_of_three v t lo m hi =
     (let t1 = (if np_less (v ! (t ! m)) (v ! (t ! lo)) then intp_swap t m lo else t);
          t2 = (if np_less (v ! (t1 ! hi)) (v ! (t1 ! m)) then intp_swap t1 hi m else t1)
      in if np_less (v ! (t2 ! m)) (v ! (t2 ! lo)) then intp_swap t2 m lo else t2)"

definition quicksort_partition :: "pyfloat list \<Rightarrow> nat list \<Rightarrow> nat \<Rightarrow> nat \<Rightarrow> nat list \<times> nat" where
  "quicksort_partition v t lo hi =
     (let m = lo + (hi - lo) div 2;
          t3 = median_of_three v t lo m hi;
          vp = v ! (t3 ! m);
          t4 = intp_swap t3 m (hi - 1)
      in case partition_loop v vp t4 lo (hi - 1) of
           (t5, i) \<Rightarrow> (intp_swap t5 i (hi - 1), i))"

text \<open>
  \<^verbatim>\<open>while ((pr - pl) > SMALL_QUICKSORT)\<close> with \<^verbatim>\<open>SMALL_QUICKSORT = 16\<close>: partition, push
  the larger part with the decremented depth budget, go on with the smaller part.
\<close>

type_synonym sort_stack = "(nat \<times> nat \<times> int) list"

function partition_phase ::
  "pyfloat list \<Rightarrow> nat list \<Rightarrow> nat \<Rightarrow> nat \<Rightarrow> int \<Rightarrow> sort_stack
     \<Rightarrow> nat list \<times> nat \<times> nat \<times> int \<times> sort_stack" where
  "partition_phase v t lo hi cdepth stack =
     (if 16 < hi - lo then
        (case quicksort_partition v t lo hi of
           (t', i) \<Rightarrow>
             if i - lo < hi - i
             then partition_phase v t' lo (i - 1) (cdepth - 1) ((i + 1, hi, cdepth - 1) # stack)
             else partition_phase v t' (i + 1) hi (cdepth - 1) ((lo, i - 1, cdepth - 1) # stack))
      else (t, lo, hi, cdepth, stack))"
  by pat_completeness auto

termination
  by (relation "measure (\<lambda>(v, t, lo, hi, cdepth, stack). hi - lo)") simp_all

declare partition_phase.simps [simp del]

text \<open>
  The insertion sort of a range: for \<open>pi = pl + 1, ..., pr\<close>, the index \<open>vi = t[pi]\<close> moves
  down past the indices whose key is larger in numpy's comparison
  (\<^verbatim>\<open>while (pj > pl && less(vp, v[*pk])) { *pj-- = *pk--; } *pj = vi;\<close>).
\<close>

fun insertion_shift ::
  "pyfloat list \<Rightarrow> nat list \<Rightarrow> pyfloat \<Rightarrow> nat \<Rightarrow> nat \<Rightarrow> nat list \<times> nat" where
  "insertion_shift v t vp lo j =
     (if lo < j \<and> np_less vp (v ! (t ! (j - 1)))
      then insertion_shift v (t[j := t ! (j - 1)]) vp lo (j - 1)
      else (t, j))"

declare insertion_shift.simps [simp del]

definition insertion_step :: "pyfloat list \<Rightarrow> nat \<Rightarrow> nat \<Rightarrow> nat list \<Rightarrow> nat list" where
  "insertion_step v lo i t =
     (let vi = t ! i; vp = v ! vi
      in case insertion_shift v t vp lo i of (t', j) \<Rightarrow> t'[j := vi])"

definition insertion_sort_range :: "pyfloat list \<Rightarrow> nat list \<Rightarrow> nat \<Rightarrow> nat \<Rightarrow> nat list" where
  "insertion_sort_range v t lo hi = fold (insertion_step v lo) [Suc lo..<Suc hi] t"

text \<open>
  The outer loop \<^verbatim>\<open>while (1)\<close>: partition phase, insertion sort, then the next range is
  popped from the stack, until the stack is empty. Every round finishes one range; the
  loop is given one unit of fuel per round, \<open>n + 1\<close> in all. The result is \<open>None\<close> when
  the fuel runs out, and when the depth budget is used up, where the C code calls
  heapsort, which is not modelled.
\<close>

fun aquicksort_loop ::
  "nat \<Rightarrow> pyfloat list \<Rightarrow> nat list \<Rightarrow> nat \<Rightarrow> nat \<Rightarrow> int \<Rightarrow> sort_stack \<Rightarrow> nat list option" where
  "aquicksort_loop 0 v t lo hi cdepth stack = None"
| "aquicksort_loop (Suc fuel) v t lo hi cdepth stack =
     (if cdepth < 0 then None
      else case partition_phase v t lo hi cdepth stack of
             (t1, lo1, hi1, cdepth1, stack1) \<Rightarrow>
               (let t2 = insertion_sort_range v t1 lo1 hi1
                in case stack1 of
                     [] \<Rightarrow> Some t2
                   | (lo2, hi2, cdepth2) # stack2 \<Rightarrow>
                       aquicksort_loop fuel v t2 lo2 hi2 cdepth2 stack2))"

text \<open>\<^verbatim>\<open>npy_get_msb(n)\<close>: the position of the highest set bit (\<^verbatim>\<open>while (n >>= 1) depth++\<close>).\<close>

fun npy_get_msb :: "nat \<Rightarrow> nat" where
  "npy_get_msb n = (if n < 2 then 0 else Suc (npy_get_msb (n div 2)))"

declare npy_get_msb.simps [simp del]

definition np_argsort :: argsort_fn where
  "np_argsort v =
     aquicksort_loop (Suc (length v)) v [0..<length v] 0 (length v - 1)
       (2 * int (npy_get_msb (length v))) []"

text \<open>
  A mean for the examples: the sum and the quotient without rounding (NaN for an empty
  column, as \<^verbatim>\<open>0/0\<close>). It is what \<^verbatim>\<open>np.mean\<close> returns whenever the sum and the quotient
  are representable, as for the single-row matrix and the small integers used below.
\<close>

definition exact_mean :: mean_fn where
  "exact_mean xs =
     (case foldl fadd (Fin 0) xs of
        Fin s \<Rightarrow> fdiv s (real (length xs))
      | PInf \<Rightarrow> PInf
      | NInf \<Rightarrow> NInf
      | NaN \<Rightarrow> NaN)"

section \<open>Sample clustering of \<^verbatim>\<open>RiskCluster\<close> (lines 90--96)\<close>

text \<open>
  \<^verbatim>\<open>scipy.spatial.distance.pdist(M, 'correlation')\<close>: for every pair of rows \<open>i < j\<close>, in
  row-major order, one minus the Pearson correlation of the two rows (the cosine of the
  centred rows; NaN for a constant row). \<^verbatim>\<open>squareform\<close> turns that condensed list into the
  symmetric \<open>m \<times> m\<close> matrix with a zero diagonal.
\<close>

definition centered :: "real list \<Rightarrow> real list" where
  "centered u = map (\<lambda>x. x - sum_list u / real (length u)) u"

definition dot :: "real list \<Rightarrow> real list \<Rightarrow> real" where
  "dot u v = sum_list (map2 (*) u v)"

fun one_minus :: "pyfloat \<Rightarrow> pyfloat" where
  "one_minus (Fin c) = Fin (1 - c)"
| "one_minus PInf = NInf"
| "one_minus NInf = PInf"
| "one_minus NaN = NaN"

definition correlation :: "real list \<Rightarrow> real list \<Rightarrow> pyfloat" where
  "correlation u v =
     (let u0 = centered u; v0 = centered v
      in one_minus (fdiv (dot u0 v0) (sqrt (dot u0 u0) * sqrt (dot v0 v0))))"

fun finite_values :: "pyfloat list \<Rightarrow> real list option" where
  "finite_values [] = Some []"
| "finite_values (Fin x # xs) = map_option ((#) x) (finite_values xs)"
| "finite_values (_ # xs) = None"

definition correlation_f :: "pyfloat list \<Rightarrow> pyfloat list \<Rightarrow> pyfloat" where
  "correlation_f u v =
     (case (finite_values u, finite_values v) of
        (Some a, Some b) \<Rightarrow> correlation a b
      | _ \<Rightarrow> NaN)"

definition pdist :: "('a \<Rightarrow> 'a \<Rightarrow> pyfloat) \<Rightarrow> 'a list \<Rightarrow> pyfloat list" where
  "pdist metric M =
     concat (map (\<lambda>i. map (\<lambda>j. metric (M ! i) (M ! j)) [Suc i..<length M]) [0..<length M])"

definition condensed_index :: "nat \<Rightarrow> nat \<Rightarrow> nat \<Rightarrow> nat" where
  "condensed_index m i j = m * i - (i * (i + 1)) div 2 + (j - i - 1)"

definition squareform :: "nat \<Rightarrow> pyfloat list \<Rightarrow> pyfloat list list" where
  "squareform m d =
     map (\<lambda>i. map (\<lambda>j. if i = j then Fin 0 else d ! condensed_index m (min i j) (max i j))
                [0..<m]) [0..<m]"

text \<open>
  \<^verbatim>\<open>scipy.cluster.hierarchy.linkage(y, method, metric)\<close> reads a one-dimensional \<open>y\<close> as
  condensed distances and clusters on them; it reads a two-dimensional \<open>y\<close> as one
  observation vector per row and clusters on \<^verbatim>\<open>pdist(y, metric)\<close>. \<open>linkage_distances\<close>
  is the list of distances the clustering runs on, for \<^verbatim>\<open>metric='correlation'\<close>.
\<close>

datatype linkage_arg = Condensed "pyfloat list" | Observations "pyfloat list list"

definition linkage_distances :: "linkage_arg \<Rightarrow> pyfloat list" where
  "linkage_distances y =
     (case y of Condensed d \<Rightarrow> d | Observations M \<Rightarrow> pdist correlation_f M)"

text \<open>
  The agglomeration itself (\<^verbatim>\<open>method='average'\<close>), the merge heights \<^verbatim>\<open>Z[:, 2]\<close> of its
  result and \<^verbatim>\<open>fcluster(Z, t, 'distance')\<close> are scipy's: parameters of the model.
\<close>

record 'z hierarchy =
  average_linkage :: "pyfloat list \<Rightarrow> 'z"
  merge_heights :: "'z \<Rightarrow> pyfloat list"
  fcluster :: "'z \<Rightarrow> pyfloat \<Rightarrow> int list"

text \<open>Python's \<^verbatim>\<open>max\<close> of a sequence, and the product \<^verbatim>\<open>0.7 * h\<close>.\<close>

fun py_max :: "pyfloat list \<Rightarrow> error + pyfloat" where
  "py_max [] = Inl ValueError"
| "py_max (x # xs) = Inr (fold (\<lambda>y m. if fgt y m then y else m) xs x)"

fun fscale :: "real \<Rightarrow> pyfloat \<Rightarrow> pyfloat" where
  "fscale c (Fin x) = Fin (c * x)"
| "fscale c PInf = (if 0 < c then PInf else if c < 0 then NInf else NaN)"
| "fscale c NInf = (if 0 < c then NInf else if c < 0 then PInf else NaN)"
| "fscale c NaN = NaN"

text \<open>
  \<open>samples\<close> is \<^verbatim>\<open>Normalized.T\<close>: one row per sample, holding the z-scores of its
  selected features. Line 92 replaces \<^verbatim>\<open>SampleDist\<close> by its square form, and line 93
  passes that matrix to \<^verbatim>\<open>linkage\<close>.
\<close>

definition SampleDist :: "real list list \<Rightarrow> pyfloat list list" where
  "SampleDist samples = squareform (length samples) (pdist correlation samples)"

definition SampleLinkage_distances :: "real list list \<Rightarrow> pyfloat list" where
  "SampleLinkage_distances samples = linkage_distances (Observations (SampleDist samples))"

definition SampleLinkage :: "'z hierarchy \<Rightarrow> real list list \<Rightarrow> 'z" where
  "SampleLinkage lib samples =
     average_linkage lib (linkage_distances (Observations (SampleDist samples)))"

definition Labels_of :: "'z hierarchy \<Rightarrow> real list list \<Rightarrow> error + int list" where
  "Labels_of lib samples =
     (case py_max (merge_heights lib (SampleLinkage lib samples)) of
        Inl e \<Rightarrow> Inl e
      | Inr h \<Rightarrow> Inr (fcluster lib (SampleLinkage lib samples) (fscale (7 / 10) h)))"

text \<open>
  Four samples with three features. Every feature has mean 0 and standard deviation 1
  over the samples, so the matrix is its own z-score normalisation.
\<close>

definition example_samples :: "real list list" where
  "example_samples = [[1, 1, - 1], [- 1, - 1, 1], [1, - 1, 1], [- 1, 1, - 1]]"

section \<open>Annotation tracks of \<^verbatim>\<open>RiskCluster\<close> (lines 145--156)\<close>

text \<open>
  \<^verbatim>\<open>str.strip()\<close> removes leading and trailing whitespace; \<^verbatim>\<open>s[-4:]\<close> keeps the last
  four characters (all of \<open>s\<close> when it is shorter).
\<close>

definition is_space :: "char \<Rightarrow> bool" where
  "is_space c = (c \<in> set [CHR '' '', CHR 0x09, CHR 0x0A, CHR 0x0B, CHR 0x0C, CHR 0x0D,
                           CHR 0x1C, CHR 0x1D, CHR 0x1E, CHR 0x1F, CHR 0x85, CHR 0xA0])"

definition strip :: "string \<Rightarrow> string" where
  "strip s = rev (dropWhile is_space (rev (dropWhile is_space s)))"

definition last4 :: "string \<Rightarrow> string" where
  "last4 s = drop (length s - 4) s"

definition SigMut :: "string list \<Rightarrow> string list" where
  "SigMut Significant = filter (\<lambda>Symbol. last4 (strip Symbol) = ''_Mut'') Significant"

definition SigCNV :: "string list \<Rightarrow> string list" where
  "SigCNV Significant = filter (\<lambda>Symbol. last4 (strip Symbol) = ''_CNV'') Significant"

section \<open>The shuffles of \<^verbatim>\<open>Run\<close> (\<^verbatim>\<open>examples/Run1.py\<close>, lines 88--121)\<close>

text \<open>
  The data are three arrays with one row per sample. Each of the \<^verbatim>\<open>N_SHUFFLES\<close>
  iterations draws \<^verbatim>\<open>order = np.random.RandomState(i).permutation(np.arange(len(X)))\<close>,
  replaces \<^verbatim>\<open>X\<close>, \<^verbatim>\<open>O\<close> and \<^verbatim>\<open>T\<close> by their rows in that order, and hands three
  slices of each to \<^verbatim>\<open>calc_at_risk\<close>. The generator is numpy's: it is the parameter
  \<open>permutation\<close> (seed, then length). What follows in the loop body (risk sets, training)
  does not assign \<^verbatim>\<open>X\<close>, \<^verbatim>\<open>T\<close> or \<^verbatim>\<open>O\<close> and is left out; the model returns, per
  iteration, the three triples handed to \<^verbatim>\<open>calc_at_risk\<close>.
\<close>

definition N_SHUFFLES :: nat where
  "N_SHUFFLES = 20"

type_synonym 'x dataset = "'x list \<times> pyfloat list \<times> int list"

record 'x partitions =
  train_set :: "'x dataset"
  test_set :: "'x dataset"
  val_set :: "'x dataset"

type_synonym permutation_fn = "nat \<Rightarrow> nat \<Rightarrow> nat list"

text \<open>\<^verbatim>\<open>xs[order]\<close> for an index array: IndexError on an index out of range.\<close>

definition take_rows :: "'a list \<Rightarrow> nat list \<Rightarrow> error + 'a list" where
  "take_rows xs order =
     (if list_all (\<lambda>k. k < length xs) order then Inr (map ((!) xs) order) else Inl IndexError)"

text \<open>\<^verbatim>\<open>int(20 * len(X) / 100)\<close>\<close>

definition fold_size_of :: "nat \<Rightarrow> nat" where
  "fold_size_of n = (20 * n) div 100"

text \<open>\<^verbatim>\<open>xs[a:b]\<close> for \<open>0 \<le> a \<le> b\<close>.\<close>

definition slice :: "nat \<Rightarrow> nat \<Rightarrow> 'a list \<Rightarrow> 'a list" where
  "slice a b xs = take (b - a) (drop a xs)"

definition shuffle_iteration ::
  "permutation_fn \<Rightarrow> nat \<Rightarrow> 'x dataset \<Rightarrow> error + ('x dataset \<times> 'x partitions)" where
  "shuffle_iteration permutation i d =
     (case d of (X, T, Obs) \<Rightarrow>
        let order = permutation i (length X) in
        (case take_rows X order of Inl e \<Rightarrow> Inl e | Inr X' \<Rightarrow>
        (case take_rows Obs order of Inl e \<Rightarrow> Inl e | Inr Obs' \<Rightarrow>
        (case take_rows T order of Inl e \<Rightarrow> Inl e | Inr T' \<Rightarrow>
           let fold_size = fold_size_of (length X') in
           Inr ((X', T', Obs'),
                \<lparr> train_set = (drop (2 * fold_size) X', drop (2 * fold_size) T',
                                drop (2 * fold_size) Obs'),
                  test_set = (take fold_size X', take fold_size T', take fold_size Obs'),
                  val_set = (slice fold_size (2 * fold_size) X', slice fold_size (2 * fold_size) T',
                             slice fold_size (2 * fold_size) Obs') \<rparr>)))))"

fun run_shuffles ::
  "permutation_fn \<Rightarrow> nat list \<Rightarrow> 'x dataset \<Rightarrow> error + 'x partitions list" where
  "run_shuffles permutation [] d = Inr []"
| "run_shuffles permutation (i # rest) d =
     (case shuffle_iteration permutation i d of
        Inl e \<Rightarrow> Inl e
      | Inr (d', parts) \<Rightarrow>
          (case run_shuffles permutation rest d' of
             Inl e \<Rightarrow> Inl e
           | Inr others \<Rightarrow> Inr (parts # others)))"

definition Run_partitions ::
  "permutation_fn \<Rightarrow> 'x list \<Rightarrow> pyfloat list \<Rightarrow> int list \<Rightarrow> error + 'x partitions list" where
  "Run_partitions permutation X T Obs = run_shuffles permutation [0..<N_SHUFFLES] (X, T, Obs)"

subsection \<open>The partitions as the specification words them\<close>

text \<open>
  \<open>row_order permutation n i\<close> lists, for the data as they stand before iteration \<open>i\<close>,
  the original index of every row: the arrays are reassigned in the loop, so each
  permutation acts on the result of the previous ones. The three partitions of an index
  list are its first \<open>20n div 100\<close> entries, the next \<open>20n div 100\<close> and the rest.
\<close>

primrec row_order :: "permutation_fn \<Rightarrow> nat \<Rightarrow> nat \<Rightarrow> nat list" where
  "row_order permutation n 0 = [0..<n]"
| "row_order permutation n (Suc i) = map ((!) (row_order permutation n i)) (permutation i n)"

definition test_rows :: "nat list \<Rightarrow> nat list" where
  "test_rows ix = take (fold_size_of (length ix)) ix"

definition val_rows :: "nat list \<Rightarrow> nat list" where
  "val_rows ix = take (fold_size_of (length ix)) (drop (fold_size_of (length ix)) ix)"

definition train_rows :: "nat list \<Rightarrow> nat list" where
  "train_rows ix = drop (2 * fold_size_of (length ix)) ix"

definition rows_of :: "'x list \<Rightarrow> pyfloat list \<Rightarrow> int list \<Rightarrow> nat list \<Rightarrow> 'x dataset" where
  "rows_of X T Obs ix = (map ((!) X) ix, map ((!) T) ix, map ((!) Obs) ix)"

definition partitions_at ::
  "permutation_fn \<Rightarrow> 'x list \<Rightarrow> pyfloat list \<Rightarrow> int list \<Rightarrow> nat \<Rightarrow> 'x partitions" where
  "partitions_at permutation X T Obs i =
     (let ix = row_order permutation (length X) (Suc i)
      in \<lparr> train_set = rows_of X T Obs (train_rows ix),
           test_set = rows_of X T Obs (test_rows ix),
           val_set = rows_of X T Obs (val_rows ix) \<rparr>)"

text \<open>A generator for the examples: seed \<open>s\<close> rotates the indices by \<open>s + 1\<close>.\<close>

definition example_permutation :: permutation_fn where
  "example_permutation seed n = rotate (Suc seed) [0..<n]"

section \<open>Properties of the risk sets\<close>

lemma flt_irrefl: "\<not> flt a a"
  by (cases a) simp_all

lemma at_risk_row_nth:
  "j < length T \<Longrightarrow> at_risk_row T ti ! j = (if fgt (T ! j) ti then 1 else 0)"
  by (simp add: at_risk_row_def)

lemma at_risk_row_length: "length (at_risk_row T ti) = length T"
  by (simp add: at_risk_row_def)

text \<open>
  C1. For an \<open>n\<close>-row feature matrix \<open>X\<close>, \<open>n\<close> times \<open>T\<close> and \<open>n\<close> flags, the risk-set
  construction returns the inputs with an \<open>n \<times> n\<close> 0/1 matrix \<open>A\<close> such that
  \<open>A[i][j] = 1\<close> exactly when \<open>T[j] > T[i]\<close>; the diagonal is 0, and tied times give 0
  in both directions.
\<close>

theorem C1_risk_set_matrix:
  assumes "length X = n" and "length T = n" and "length Obs = n"
  shows "\<exists>A. BuildRiskSet X T Obs = Inr (X, T, Obs, A)
           \<and> length A = n
           \<and> (\<forall>i<n. length (A ! i) = n)
           \<and> (\<forall>i<n. \<forall>j<n. A ! i ! j \<in> {0, 1} \<and> (A ! i ! j = 1 \<longleftrightarrow> fgt (T ! j) (T ! i)))
           \<and> (\<forall>i<n. A ! i ! i = 0)
           \<and> (\<forall>i<n. \<forall>j<n. T ! i = T ! j \<longrightarrow> A ! i ! j = 0 \<and> A ! j ! i = 0)"
proof -
  let ?A = "map (at_risk_row T) T"
  have run: "BuildRiskSet X T Obs = Inr (X, T, Obs, ?A)"
    using assms by (simp add: BuildRiskSet_def)
  have cell: "?A ! i ! j = (if fgt (T ! j) (T ! i) then 1 else 0)"
    if "i < n" "j < n" for i j
    using that assms(2) by (simp add: at_risk_row_nth)
  have rows: "\<forall>i<n. length (?A ! i) = n"
    using assms(2) by (simp add: at_risk_row_length)
  have iff: "\<forall>i<n. \<forall>j<n. ?A ! i ! j \<in> {0, 1} \<and> (?A ! i ! j = 1 \<longleftrightarrow> fgt (T ! j) (T ! i))"
    using cell by simp
  have diag: "\<forall>i<n. ?A ! i ! i = 0"
    using cell by (simp add: fgt_def flt_irrefl)
  have ties: "\<forall>i<n. \<forall>j<n. T ! i = T ! j \<longrightarrow> ?A ! i ! j = 0 \<and> ?A ! j ! i = 0"
    using cell by (simp add: fgt_def flt_irrefl)
  have len: "length ?A = n"
    using assms(2) by simp
  from run len rows iff diag ties show ?thesis
    by blast
qed

theorem C1_risk_set_matrix_witness:
  "BuildRiskSet [[Fin 1], [Fin 2], [Fin 3]] [Fin 5, Fin 7, Fin 5] [1, 0, 1]
     = Inr ([[Fin 1], [Fin 2], [Fin 3]], [Fin 5, Fin 7, Fin 5], [1, 0, 1],
            [[0, 1, 0], [0, 0, 0], [0, 1, 0]])"
proof -
  have x: "length [[Fin 1], [Fin 2], [Fin 3]] = 3"
    and t: "length [Fin 5, Fin 7, Fin 5] = 3"
    and ob: "length [1, 0, 1 :: int] = 3"
    by simp_all
  from C1_risk_set_matrix [OF x t ob] obtain A where
    "BuildRiskSet [[Fin 1], [Fin 2], [Fin 3]] [Fin 5, Fin 7, Fin 5] [1, 0, 1]
       = Inr ([[Fin 1], [Fin 2], [Fin 3]], [Fin 5, Fin 7, Fin 5], [1, 0, 1], A)"
    by blast
  then show ?thesis
    by (simp add: BuildRiskSet_def at_risk_row_def fgt_def)
qed

section \<open>Properties of the cluster associations\<close>

subsection \<open>The observed table\<close>

lemma fold_err_snoc:
  "fold_err f (xs @ [x]) s = (case fold_err f xs s of Inl e \<Rightarrow> Inl e | Inr s' \<Rightarrow> f x s')"
  by (induction xs arbitrary: s) (auto split: sum.splits)

lemma upto_from_one: "[1..int K] = map (\<lambda>k. int k + 1) [0..<K]"
proof (induction K)
  case 0
  then show ?case by simp
next
  case (Suc K)
  have "[1..int (Suc K)] = [1..int K] @ [int K + 1]"
    using upto_rec2 [of 1 "int (Suc K)"] by simp
  with Suc show ?case by simp
qed

lemma zip_as_indices:
  "length xs = length ys \<Longrightarrow> zip xs ys = map (\<lambda>s. (xs ! s, ys ! s)) [0..<length ys]"
  by (rule nth_equalityI) simp_all

lemma masked_count:
  assumes "length Labels = length Raw"
  shows "count_eq v (map (\<lambda>(l, row). row ! col) (filter (\<lambda>(l, row). l = j) (zip Labels Raw)))
           = cluster_count Raw Labels col v j"
proof -
  have "count_eq v (map (\<lambda>(l, row). row ! col) (filter (\<lambda>(l, row). l = j) (zip Labels Raw)))
      = length (filter (\<lambda>(l, row). l = j \<and> feq (row ! col) (Fin v)) (zip Labels Raw))"
    by (simp add: count_eq_def filter_map comp_def case_prod_unfold conj_commute)
  also have "\<dots> = length (filter (\<lambda>s. Labels ! s = j \<and> feq (Raw ! s ! col) (Fin v)) [0..<length Raw])"
    by (simp add: zip_as_indices [OF assms] filter_map comp_def)
  finally show ?thesis by (simp add: cluster_count_def)
qed

lemma partial_row_start: "partial_row Raw Labels col K 0 v = replicate K 0"
  by (rule nth_equalityI) (simp_all add: partial_row_def)

lemma partial_row_full:
  "partial_row Raw Labels col K K v = map (\<lambda>k. cluster_count Raw Labels col v (int k + 1)) [0..<K]"
  by (simp add: partial_row_def)

lemma partial_row_step:
  "m < K \<Longrightarrow>
   (partial_row Raw Labels col K m v)[m := cluster_count Raw Labels col v (int m + 1)]
     = partial_row Raw Labels col K (Suc m) v"
  by (rule nth_equalityI) (auto simp: partial_row_def nth_list_update less_Suc_eq)

lemma Observed_step_partial:
  assumes "length Labels = length Raw" and "list_all (\<lambda>row. col < length row) Raw" and "m < K"
  shows "Observed_step Raw Labels col (int m + 1)
           [partial_row Raw Labels col K m 0, partial_row Raw Labels col K m 1]
         = Inr [partial_row Raw Labels col K (Suc m) 0, partial_row Raw Labels col K (Suc m) 1]"
  using assms
  by (simp add: Observed_step_def masked_column_def masked_count set_cell_def partial_row_step)

lemma Observed_loop_partial:
  assumes "length Labels = length Raw" and "list_all (\<lambda>row. col < length row) Raw" and "m \<le> K"
  shows "fold_err (Observed_step Raw Labels col) (map (\<lambda>k. int k + 1) [0..<m])
           [replicate K 0, replicate K 0]
         = Inr [partial_row Raw Labels col K m 0, partial_row Raw Labels col K m 1]"
  using assms(3)
proof (induction m)
  case 0
  then show ?case by (simp add: partial_row_start)
next
  case (Suc m)
  then have "m < K" and "m \<le> K" by simp_all
  with Suc.IH Observed_step_partial [OF assms(1,2) \<open>m < K\<close>] show ?case
    by (simp add: fold_err_snoc)
qed

lemma Observed_table_spec:
  assumes "length Labels = length Raw" and "list_all (\<lambda>row. col < length row) Raw" and "0 \<le> K"
  shows "Observed_table Raw Labels col K = Inr (contingency_spec Raw Labels col (nat K))"
proof -
  have "[1..K] = map (\<lambda>k. int k + 1) [0..<nat K]"
    using upto_from_one [of "nat K"] assms(3) by simp
  moreover have "replicate 2 (replicate (nat K) (0::nat)) = [replicate (nat K) 0, replicate (nat K) 0]"
    by (simp add: numeral_2_eq_2)
  ultimately show ?thesis
    using Observed_loop_partial [OF assms(1,2), of "nat K" "nat K"] assms(3)
    by (simp add: Observed_table_def contingency_spec_def partial_row_full)
qed

text \<open>A table that the loop built without an error is the specified one.\<close>

lemma fold_err_first_ok:
  "fold_err f (x # xs) s = Inr s' \<Longrightarrow> \<exists>s1. f x s = Inr s1"
  by (cases "f x s") simp_all

lemma Observed_step_ok:
  "Observed_step Raw Labels col j obs = Inr obs' \<Longrightarrow>
   length Labels = length Raw \<and> list_all (\<lambda>row. col < length row) Raw"
  by (auto simp: Observed_step_def masked_column_def split: sum.splits if_splits)

lemma Observed_table_Inr:
  assumes "Observed_table Raw Labels col K = Inr obs"
  shows "0 \<le> K \<and> obs = contingency_spec Raw Labels col (nat K)"
proof (cases "K \<le> 0")
  case True
  with assms show ?thesis
    by (cases "K = 0") (auto simp: Observed_table_def contingency_spec_def numeral_2_eq_2 split: if_splits)
next
  case False
  then have pos: "0 \<le> K" and ne: "[1..K] = 1 # [2..K]"
    by (simp_all add: upto_rec1)
  from assms pos have "fold_err (Observed_step Raw Labels col) (1 # [2..K])
      (replicate 2 (replicate (nat K) 0)) = Inr obs"
    by (simp add: Observed_table_def ne)
  from fold_err_first_ok [OF this]
  obtain s1 where "Observed_step Raw Labels col 1 (replicate 2 (replicate (nat K) 0)) = Inr s1" ..
  then have "length Labels = length Raw \<and> list_all (\<lambda>row. col < length row) Raw"
    by (rule Observed_step_ok)
  with Observed_table_spec [of Labels Raw col K] pos assms show ?thesis
    by simp
qed

subsection \<open>The expected table and the two loops\<close>

lemma Expected_two_rows:
  assumes "length r0 = length r1"
  shows "Expected [r0, r1] = expected_spec [r0, r1]"
proof -
  have "sum_axis0 [r0, r1] = map (\<lambda>k. r0 ! k + r1 ! k) [0..<length r0]"
    by (simp add: sum_axis0_def)
  then show ?thesis
    by (simp add: Expected_def expected_spec_def sum_axis1_def outer_def Let_def comp_def)
qed

lemma contingency_spec_rows:
  "contingency_spec Raw Labels col K
     = [map (\<lambda>k. cluster_count Raw Labels col 0 (int k + 1)) [0..<K],
        map (\<lambda>k. cluster_count Raw Labels col 1 (int k + 1)) [0..<K]]"
  by (simp add: contingency_spec_def)

lemma Expected_contingency_spec:
  "Expected (contingency_spec Raw Labels col K) = expected_spec (contingency_spec Raw Labels col K)"
  unfolding contingency_spec_rows by (rule Expected_two_rows) simp

lemma contingency_Inr:
  assumes "contingency Raw Labels col = Inr obs" and "np_max Labels = Inr K"
  shows "0 \<le> K \<and> obs = contingency_spec Raw Labels col (nat K)"
  using assms Observed_table_Inr [of Raw Labels col K obs]
  by (simp add: contingency_def)

lemma mutation_step_Inr:
  assumes "mutation_step chisquare Raw Symbols Labels Tau col st = Inr st'"
      and "np_max Labels = Inr K"
  shows "fst st' = (if mutation_significant chisquare Raw Labels Tau (nat K) col
                     then fst st @ [Symbols ! col] else fst st)"
proof -
  from assms(1) obtain obs where obs: "contingency Raw Labels col = Inr obs"
    by (auto simp: mutation_step_def split: sum.splits)
  with assms(2) have tab: "obs = contingency_spec Raw Labels col (nat K)"
    using contingency_Inr by blast
  from assms(1) obs obtain p where p: "chisquare obs (Expected obs) 1 = Inr p"
    and st': "st' = (if flt p Tau then fst st @ [Symbols ! col] else fst st, Some p)"
    by (auto simp: mutation_step_def split: sum.splits)
  from p tab have "mutation_significant chisquare Raw Labels Tau (nat K) col = flt p Tau"
    by (simp add: mutation_significant_def Expected_contingency_spec)
  with st' show ?thesis by simp
qed

lemma mutation_loop_Inr:
  assumes "fold_err (mutation_step chisquare Raw Symbols Labels Tau) cols st = Inr st'"
      and "np_max Labels = Inr K"
  shows "fst st' = fst st @ map ((!) Symbols)
                     (filter (mutation_significant chisquare Raw Labels Tau (nat K)) cols)"
  using assms(1)
proof (induction cols arbitrary: st)
  case Nil
  then show ?case by simp
next
  case (Cons col cols)
  then obtain s1 where s1: "mutation_step chisquare Raw Symbols Labels Tau col st = Inr s1"
    and rest: "fold_err (mutation_step chisquare Raw Symbols Labels Tau) cols s1 = Inr st'"
    by (auto split: sum.splits)
  from mutation_step_Inr [OF s1 assms(2)] Cons.IH [OF rest] show ?case
    by simp
qed

lemma cnv_step_Inr:
  assumes "cnv_step kruskalwallis Raw Symbols Labels Tau col st = Inr st'"
  shows "fst st' = fst st \<or> fst st' = fst st @ [Symbols ! col]"
  using assms
  by (auto simp: cnv_step_def split: sum.splits option.splits if_splits)

lemma cnv_loop_Inr:
  assumes "fold_err (cnv_step kruskalwallis Raw Symbols Labels Tau) cols st = Inr st'"
  shows "\<exists>cs. subseq cs cols \<and> fst st' = fst st @ map ((!) Symbols) cs"
  using assms
proof (induction cols arbitrary: st)
  case Nil
  then show ?case by simp
next
  case (Cons col cols)
  then obtain s1 where s1: "cnv_step kruskalwallis Raw Symbols Labels Tau col st = Inr s1"
    and rest: "fold_err (cnv_step kruskalwallis Raw Symbols Labels Tau) cols s1 = Inr st'"
    by (auto split: sum.splits)
  from Cons.IH [OF rest] obtain cs where cs: "subseq cs cols"
    and eq: "fst st' = fst s1 @ map ((!) Symbols) cs"
    by blast
  from cnv_step_Inr [OF s1] show ?case
  proof
    assume "fst s1 = fst st"
    with cs eq have "subseq cs (col # cols) \<and> fst st' = fst st @ map ((!) Symbols) cs"
      by (simp add: list_emb_Cons)
    then show ?thesis by blast
  next
    assume "fst s1 = fst st @ [Symbols ! col]"
    with cs eq have "subseq (col # cs) (col # cols)
        \<and> fst st' = fst st @ map ((!) Symbols) (col # cs)"
      by simp
    then show ?thesis by blast
  qed
qed

lemma ClusterAssociations_Inr:
  assumes "ClusterAssociations chisquare kruskalwallis Raw Symbols Labels Tau = Inr Significant"
      and "np_max Labels = Inr K"
  shows "\<exists>cnvs. subseq cnvs (CNVs_of Symbols)
           \<and> Significant =
               map ((!) Symbols)
                 (filter (mutation_significant chisquare Raw Labels Tau (nat K)) (Mutations_of Symbols))
               @ map ((!) Symbols) cnvs"
proof -
  from assms(1) obtain st st' where
    m: "fold_err (mutation_step chisquare Raw Symbols Labels Tau) (Mutations_of Symbols) ([], None) = Inr st"
    and c: "fold_err (cnv_step kruskalwallis Raw Symbols Labels Tau) (CNVs_of Symbols) st = Inr st'"
    and s: "Significant = fst st'"
    by (auto simp: ClusterAssociations_def split: sum.splits)
  from mutation_loop_Inr [OF m assms(2)] cnv_loop_Inr [OF c] s show ?thesis
    by auto
qed

lemma np_max_Max: "Labels \<noteq> [] \<Longrightarrow> np_max Labels = Inr (Max (set Labels))"
proof (cases Labels)
  case Nil
  assume "Labels \<noteq> []"
  with Nil show ?thesis by simp
next
  case (Cons x xs)
  then show ?thesis
    by (simp only: np_max.simps Max.set_eq_fold)
qed

lemma mutation_step_total:
  assumes "length Labels = length Raw" and "list_all (\<lambda>row. col < length row) Raw"
      and "np_max Labels = Inr K" and "0 \<le> K"
  shows "mutation_step chisquare Raw Symbols Labels Tau col st =
           (case chisquare (contingency_spec Raw Labels col (nat K))
                   (expected_spec (contingency_spec Raw Labels col (nat K))) 1 of
              Inl e \<Rightarrow> Inl e
            | Inr p \<Rightarrow> Inr (if flt p Tau then fst st @ [Symbols ! col] else fst st, Some p))"
  using assms Observed_table_spec [of Labels Raw col K]
  by (simp add: mutation_step_def contingency_def Expected_contingency_spec)

subsection \<open>The chi-square routine of scipy passes NaN on\<close>

lemma fadd_NaN_right [simp]: "fadd x NaN = NaN"
  by (cases x) simp_all

lemma foldl_fadd_NaN [simp]: "foldl fadd NaN xs = NaN"
  by (induction xs) simp_all

lemma foldl_fadd_has_NaN: "NaN \<in> set xs \<Longrightarrow> foldl fadd a xs = NaN"
  by (induction xs arbitrary: a) auto

lemma cell_in_zip_concat:
  assumes "map length A = map length B" and "r < length A" and "k < length (A ! r)"
  shows "(A ! r ! k, B ! r ! k) \<in> set (zip (concat A) (concat B))"
  using assms
proof (induction A arbitrary: B r)
  case Nil
  then show ?case by simp
next
  case (Cons a A)
  then obtain b B' where B: "B = b # B'" and len: "length a = length b"
    and rest: "map length A = map length B'"
    by (cases B) auto
  show ?case
  proof (cases r)
    case 0
    with Cons.prems(3) len have "(a ! k, b ! k) \<in> set (zip a b)"
      by (auto simp: in_set_zip)
    with 0 B len show ?thesis by (simp add: zip_append)
  next
    case (Suc r')
    with Cons.prems B have "(A ! r' ! k, B' ! r' ! k) \<in> set (zip (concat A) (concat B'))"
      by (intro Cons.IH [OF rest]) simp_all
    with Suc B len show ?thesis by (simp add: zip_append)
  qed
qed

lemma chi_term_degenerate:
  "e = NaN \<or> (e = Fin 0 \<and> ob = 0) \<Longrightarrow> chi_term ob e = NaN"
  by (auto simp: fdiv_def)

lemma degenerate_statistic:
  assumes "map length Observed = map length Expected'" and "degenerate_cell Observed Expected'"
  shows "foldl fadd (Fin 0) (map2 chi_term (concat Observed) (concat Expected')) = NaN"
proof -
  from assms(2) obtain r k where r: "r < length Observed" and k: "k < length (Observed ! r)"
    and deg: "Expected' ! r ! k = NaN \<or> (Expected' ! r ! k = Fin 0 \<and> Observed ! r ! k = 0)"
    by (auto simp: degenerate_cell_def list_ex_iff)
  from assms(1) r k
  have "(Observed ! r ! k, Expected' ! r ! k) \<in> set (zip (concat Observed) (concat Expected'))"
    by (rule cell_in_zip_concat)
  then have "chi_term (Observed ! r ! k) (Expected' ! r ! k)
      \<in> set (map2 chi_term (concat Observed) (concat Expected'))"
    by (auto intro!: image_eqI [where x = "(Observed ! r ! k, Expected' ! r ! k)"])
  with chi_term_degenerate [OF deg]
  have "NaN \<in> set (map2 chi_term (concat Observed) (concat Expected'))"
    by simp
  then show ?thesis
    by (rule foldl_fadd_has_NaN)
qed

lemma chisquare_scipy_propagates:
  assumes "\<forall>df. sf NaN df = NaN"
  shows "propagates_nan (chisquare_scipy sf)"
  using assms by (simp add: propagates_nan_def chisquare_scipy_def degenerate_statistic)

subsection \<open>The example data\<close>

lemma exp_minus_four: "exp (- 4 :: real) < 1 / 20"
proof -
  have "(5::real) \<le> exp 2"
    using exp_lower_Taylor_quadratic [of "2::real"] by simp
  then have "(25::real) \<le> exp 2 * exp 2"
    using mult_mono [of 5 "exp 2" 5 "exp (2::real)"] by simp
  also have "\<dots> = exp (4::real)"
    by (simp add: exp_add [symmetric])
  finally have "(20::real) < exp 4" by simp
  then have "inverse (exp (4::real)) < inverse 20"
    by (simp add: field_simps)
  then show ?thesis
    by (simp add: exp_minus)
qed

lemma example_chisquare_value:
  "example_chisquare [[4, 0], [0, 4]] [[Fin 2, Fin 2], [Fin 2, Fin 2]] ddof = Inr (Fin (exp (- 4)))"
  by (simp add: example_chisquare_def chisquare_scipy_def example_sf_def fdiv_def power2_eq_square)

lemma example_significant: "flt (Fin (exp (- 4))) (Fin (1 / 20))"
  using exp_minus_four by simp

lemma feq_Fin [simp]: "feq x (Fin v) \<longleftrightarrow> x = Fin v"
  by (auto simp: feq_def)

lemma example_table:
  "contingency_spec example_Raw example_Labels 0 2 = [[4, 0], [0, 4]]"
  by (simp add: contingency_spec_def cluster_count_def example_Raw_def example_Labels_def
      upt_rec numeral_2_eq_2)

lemma example_expected:
  "expected_spec [[4, 0], [0, 4]] = [[Fin 2, Fin 2], [Fin 2, Fin 2]]"
  by (simp add: expected_spec_def fdiv_def upt_rec numeral_2_eq_2)

lemma example_suffixes:
  "Mutations_of [''A_Mut'', ''B_CNV''] = [0]" "CNVs_of [''A_Mut'', ''B_CNV''] = [1]"
  by (simp_all add: Mutations_of_def CNVs_of_def indices_where_def symbol_suffix_def rfind_def
      enumerate_eq_zip)

lemma example_contingency:
  "contingency example_Raw example_Labels 0 = Inr [[4, 0], [0, 4]]"
proof -
  have "np_max example_Labels = Inr 2"
    by (simp add: example_Labels_def)
  moreover have "Observed_table example_Raw example_Labels 0 2
      = Inr (contingency_spec example_Raw example_Labels 0 (nat 2))"
    by (rule Observed_table_spec) (simp_all add: example_Raw_def example_Labels_def)
  ultimately show ?thesis
    by (simp add: contingency_def example_table)
qed

lemma example_Expected: "Expected [[4, 0], [0, 4]] = [[Fin 2, Fin 2], [Fin 2, Fin 2]]"
  using Expected_two_rows [of "[4, 0]" "[0, 4]"] by (simp add: example_expected)

subsection \<open>Cluster counts outside 2..5\<close>

text \<open>
  For a maximum label other than 2, 3, 4 and 5 the step tests nothing and decides on
  the value \<^verbatim>\<open>p\<close> already has.
\<close>

lemma cnv_step_outside:
  assumes "np_max Labels = Inr K" and "K \<noteq> 2" and "K \<noteq> 3" and "K \<noteq> 4" and "K \<noteq> 5"
  shows "cnv_step kruskalwallis Raw Symbols Labels Tau col (Significant, p)
           = (case p of
                None \<Rightarrow> Inl UnboundLocalError
              | Some q \<Rightarrow> Inr (if flt q Tau then Significant @ [Symbols ! col] else Significant, Some q))"
  using assms by (simp add: cnv_step_def split: option.splits)

text \<open>
  C2 (the code departs from the claim). With one sample, one copy-number feature and the
  single label 1, no mutation test has assigned \<^verbatim>\<open>p\<close> and none of the four branches
  runs: the test \<^verbatim>\<open>if p < Tau\<close> reads an unbound variable and the call fails. Where an
  earlier test has left a value in \<^verbatim>\<open>p\<close>, the copy-number feature is reported exactly
  when that stale value is below \<open>Tau\<close>.
\<close>

theorem C2_unbound_p_outside_2_to_5:
  "ClusterAssociations chisquare kruskalwallis [[Fin 0]] [''G_CNV''] [1] Tau = Inl UnboundLocalError
   \<and> cnv_step kruskalwallis [[Fin 0]] [''G_CNV''] [1] Tau 0 (Significant, Some p)
       = Inr (if flt p Tau then Significant @ [''G_CNV''] else Significant, Some p)"
  by (simp add: ClusterAssociations_def Mutations_of_def CNVs_of_def indices_where_def
      symbol_suffix_def rfind_def cnv_step_def enumerate_eq_zip)

subsection \<open>The function as a whole\<close>

lemma indices_where_bound: "set (indices_where P xs) \<subseteq> {0..<length xs}"
  by (auto simp: indices_where_def enumerate_eq_zip dest: set_zip_leftD)

lemma masked_column_values:
  assumes "length Labels = length Raw" and "list_all (\<lambda>row. col < length row) Raw"
  shows "masked_column Raw Labels j col = Inr (cluster_values Raw Labels col j)"
  using assms
  by (simp add: masked_column_def cluster_values_def zip_as_indices filter_map comp_def)

lemma map_err_all_ok: "(\<And>x. x \<in> set xs \<Longrightarrow> f x = Inr (g x)) \<Longrightarrow> map_err f xs = Inr (map g xs)"
  by (induction xs) simp_all

lemma kruskal_groups_ok:
  assumes "length Labels = length Raw" and "list_all (\<lambda>row. col < length row) Raw"
  shows "kruskal_groups kruskalwallis Raw Labels col js
           = (case kruskalwallis (map (cluster_values Raw Labels col) js) of
                Inl e \<Rightarrow> Inl e | Inr p \<Rightarrow> Inr (Some p))"
  using map_err_all_ok [of js "\<lambda>j. masked_column Raw Labels j col" "cluster_values Raw Labels col"]
    masked_column_values [OF assms]
  by (simp add: kruskal_groups_def)

lemma upto_small:
  "[1..2] = [1, 2]" "[1..3] = [1, 2, 3]" "[1..4] = [1, 2, 3, 4]" "[1..5] = [1, 2, 3, 4, 5]"
  by (simp_all add: upto_rec1)

lemma cnv_step_in_range:
  assumes "np_max Labels = Inr K" and "K \<in> {2, 3, 4, 5}"
      and "length Labels = length Raw" and "list_all (\<lambda>row. col < length row) Raw"
  shows "cnv_step kruskalwallis Raw Symbols Labels Tau col st
           = (case kruskalwallis (map (cluster_values Raw Labels col) [1..K]) of
                Inl e \<Rightarrow> Inl e
              | Inr p \<Rightarrow> Inr (if flt p Tau then fst st @ [Symbols ! col] else fst st, Some p))"
  using assms(1,2)
  by (auto simp: cnv_step_def kruskal_groups_ok [OF assms(3,4)] upto_small split: sum.splits)

lemma mutation_loop_total:
  assumes "length Labels = length Raw" and "np_max Labels = Inr K" and "0 \<le> K"
      and "\<forall>col\<in>set cols. list_all (\<lambda>row. col < length row) Raw"
      and "\<forall>col\<in>set cols. \<exists>p. chisquare (contingency_spec Raw Labels col (nat K))
                (expected_spec (contingency_spec Raw Labels col (nat K))) 1 = Inr p"
  shows "\<exists>p'. fold_err (mutation_step chisquare Raw Symbols Labels Tau) cols st
               = Inr (fst st @ map ((!) Symbols)
                        (filter (mutation_significant chisquare Raw Labels Tau (nat K)) cols), p')
             \<and> (cols \<noteq> [] \<longrightarrow> p' \<noteq> None) \<and> (cols = [] \<longrightarrow> p' = snd st)"
  using assms(4,5)
proof (induction cols arbitrary: st)
  case Nil
  then show ?case by simp
next
  case (Cons col cols)
  from Cons.prems obtain p where p: "chisquare (contingency_spec Raw Labels col (nat K))
                (expected_spec (contingency_spec Raw Labels col (nat K))) 1 = Inr p"
    by auto
  from Cons.prems have c: "list_all (\<lambda>row. col < length row) Raw" by simp
  let ?s1 = "(if flt p Tau then fst st @ [Symbols ! col] else fst st, Some p)"
  have step: "mutation_step chisquare Raw Symbols Labels Tau col st = Inr ?s1"
    using mutation_step_total [OF assms(1) c assms(2,3), of chisquare Symbols Tau st] p by simp
  have sig: "mutation_significant chisquare Raw Labels Tau (nat K) col = flt p Tau"
    using p by (simp add: mutation_significant_def)
  from Cons.prems have rest: "\<forall>col\<in>set cols. list_all (\<lambda>row. col < length row) Raw"
    "\<forall>col\<in>set cols. \<exists>p. chisquare (contingency_spec Raw Labels col (nat K))
                (expected_spec (contingency_spec Raw Labels col (nat K))) 1 = Inr p"
    by simp_all
  from Cons.IH [OF rest, of ?s1] obtain p' where
    ih: "fold_err (mutation_step chisquare Raw Symbols Labels Tau) cols ?s1
               = Inr (fst ?s1 @ map ((!) Symbols)
                        (filter (mutation_significant chisquare Raw Labels Tau (nat K)) cols), p')"
    and some: "cols \<noteq> [] \<longrightarrow> p' \<noteq> None" and same: "cols = [] \<longrightarrow> p' = snd ?s1"
    by blast
  from same some have "p' \<noteq> None" by (cases "cols = []") simp_all
  with step ih sig show ?case by simp
qed

lemma cnv_loop_total:
  assumes "np_max Labels = Inr K"
      and "length Labels = length Raw"
      and "\<forall>col\<in>set cols. list_all (\<lambda>row. col < length row) Raw"
      and "K \<in> {2, 3, 4, 5} \<longrightarrow>
             (\<forall>col\<in>set cols. \<exists>p. kruskalwallis (map (cluster_values Raw Labels col) [1..K]) = Inr p)"
      and "K \<in> {2, 3, 4, 5} \<or> cols = [] \<or> snd st \<noteq> None"
  shows "\<exists>cs p'. subseq cs cols
           \<and> fold_err (cnv_step kruskalwallis Raw Symbols Labels Tau) cols st
               = Inr (fst st @ map ((!) Symbols) cs, p')
           \<and> (K \<in> {2, 3, 4, 5} \<longrightarrow>
                 cs = filter (cnv_significant kruskalwallis Raw Labels Tau K) cols)"
proof (cases "K \<in> {2, 3, 4, 5}")
  case True
  have "fold_err (cnv_step kruskalwallis Raw Symbols Labels Tau) cols st
          = Inr (fst st @ map ((!) Symbols)
                   (filter (cnv_significant kruskalwallis Raw Labels Tau K) cols),
                 if cols = [] then snd st
                 else (case kruskalwallis (map (cluster_values Raw Labels (last cols)) [1..K]) of
                         Inr p \<Rightarrow> Some p | Inl e \<Rightarrow> None))"
    using assms(3,4)
  proof (induction cols arbitrary: st)
    case Nil
    then show ?case by simp
  next
    case (Cons col cols)
    with True obtain p where p: "kruskalwallis (map (cluster_values Raw Labels col) [1..K]) = Inr p"
      by auto
    from Cons.prems have c: "list_all (\<lambda>row. col < length row) Raw" by simp
    have step: "cnv_step kruskalwallis Raw Symbols Labels Tau col st
        = Inr (if flt p Tau then fst st @ [Symbols ! col] else fst st, Some p)"
      using cnv_step_in_range [OF assms(1) True assms(2) c, of kruskalwallis Symbols Tau st] p
      by simp
    have sig: "cnv_significant kruskalwallis Raw Labels Tau K col = flt p Tau"
      using p by (simp add: cnv_significant_def)
    from Cons.prems have rest: "\<forall>col\<in>set cols. list_all (\<lambda>row. col < length row) Raw"
      "K \<in> {2, 3, 4, 5} \<longrightarrow>
         (\<forall>col\<in>set cols. \<exists>p. kruskalwallis (map (cluster_values Raw Labels col) [1..K]) = Inr p)"
      by simp_all
    from Cons.IH [OF rest] step sig p show ?case
      by simp
  qed
  moreover have "subseq (filter (cnv_significant kruskalwallis Raw Labels Tau K) cols) cols"
    by simp
  ultimately show ?thesis using True by blast
next
  case False
  then have out: "K \<noteq> 2" "K \<noteq> 3" "K \<noteq> 4" "K \<noteq> 5" by simp_all
  show ?thesis
  proof (cases "cols = []")
    case True
    then show ?thesis using False by (intro exI [of _ "[]"] exI [of _ "snd st"]) simp
  next
    case ne: False
    with assms(5) False obtain q where q: "snd st = Some q" by auto
    have "fold_err (cnv_step kruskalwallis Raw Symbols Labels Tau) cols (S, Some q)
          = Inr (S @ map ((!) Symbols) (if flt q Tau then cols else []), Some q)" for S
    proof (induction cols arbitrary: S)
      case Nil
      then show ?case by simp
    next
      case (Cons col cols)
      show ?case
        using cnv_step_outside [OF assms(1) out, of kruskalwallis Raw Symbols Tau col S "Some q"]
          Cons.IH
        by simp
    qed
    from this [of "fst st"] q have "fold_err (cnv_step kruskalwallis Raw Symbols Labels Tau) cols st
          = Inr (fst st @ map ((!) Symbols) (if flt q Tau then cols else []), Some q)"
      by (cases st) simp
    moreover have "subseq (if flt q Tau then cols else []) cols"
      by simp
    ultimately show ?thesis using False by blast
  qed
qed

text \<open>
  C3. For a mutation feature, the loop of \<^verbatim>\<open>ClusterAssociations\<close> builds the \<open>2 \<times> K\<close>
  table of the counts of value 0 and value 1 per cluster (\<open>K\<close> the maximum label), the
  expected counts are row total times column total over the table total, the chi-square
  test is called on the two with \<^verbatim>\<open>ddof = 1\<close>, and the symbol is appended exactly when
  the p-value is below \<open>Tau\<close>. Whenever the function returns a list, its mutation part is
  the list of the mutation features, in index order, for which that test is significant.
  And the function does return that list: when the labels match the rows, every feature
  is a column of the data, the library tests themselves return, and the copy-number loop
  finds \<^verbatim>\<open>p\<close> bound (2 to 5 clusters, or no copy-number feature, or a mutation feature
  tested before), the result is the significant mutation features followed by
  copy-number features, which for 2 to 5 clusters are those whose Kruskal-Wallis p-value
  is below \<open>Tau\<close>.
\<close>

theorem C3_mutation_chi_square:
  assumes "Labels \<noteq> []" and "K = Max (set Labels)"
  shows "(length Labels = length Raw \<and> list_all (\<lambda>row. col < length row) Raw \<and> 0 \<le> K \<longrightarrow>
            mutation_step chisquare Raw Symbols Labels Tau col st =
              (case chisquare (contingency_spec Raw Labels col (nat K))
                      (expected_spec (contingency_spec Raw Labels col (nat K))) 1 of
                 Inl e \<Rightarrow> Inl e
               | Inr p \<Rightarrow> Inr (if flt p Tau then fst st @ [Symbols ! col] else fst st, Some p)))
       \<and> (\<forall>Significant.
            ClusterAssociations chisquare kruskalwallis Raw Symbols Labels Tau = Inr Significant \<longrightarrow>
            (\<exists>cnvs. subseq cnvs (CNVs_of Symbols)
               \<and> Significant =
                   map ((!) Symbols)
                     (filter (mutation_significant chisquare Raw Labels Tau (nat K))
                        (Mutations_of Symbols))
                   @ map ((!) Symbols) cnvs))
       \<and> (length Labels = length Raw \<and> 0 \<le> K
            \<and> (\<forall>c<length Symbols. list_all (\<lambda>row. c < length row) Raw)
            \<and> (\<forall>c\<in>set (Mutations_of Symbols).
                  \<exists>p. chisquare (contingency_spec Raw Labels c (nat K))
                         (expected_spec (contingency_spec Raw Labels c (nat K))) 1 = Inr p)
            \<and> (K \<in> {2, 3, 4, 5} \<longrightarrow>
                  (\<forall>c\<in>set (CNVs_of Symbols).
                     \<exists>p. kruskalwallis (map (cluster_values Raw Labels c) [1..K]) = Inr p))
            \<and> (K \<in> {2, 3, 4, 5} \<or> CNVs_of Symbols = [] \<or> Mutations_of Symbols \<noteq> [])
          \<longrightarrow>
            (\<exists>cnvs. subseq cnvs (CNVs_of Symbols)
               \<and> (K \<in> {2, 3, 4, 5} \<longrightarrow>
                     cnvs = filter (cnv_significant kruskalwallis Raw Labels Tau K) (CNVs_of Symbols))
               \<and> ClusterAssociations chisquare kruskalwallis Raw Symbols Labels Tau
                   = Inr (map ((!) Symbols)
                            (filter (mutation_significant chisquare Raw Labels Tau (nat K))
                               (Mutations_of Symbols))
                          @ map ((!) Symbols) cnvs)))"
proof -
  from assms have K: "np_max Labels = Inr K"
    by (simp add: np_max_Max)
  have step: "mutation_step chisquare Raw Symbols Labels Tau col st =
              (case chisquare (contingency_spec Raw Labels col (nat K))
                      (expected_spec (contingency_spec Raw Labels col (nat K))) 1 of
                 Inl e \<Rightarrow> Inl e
               | Inr p \<Rightarrow> Inr (if flt p Tau then fst st @ [Symbols ! col] else fst st, Some p))"
    if "length Labels = length Raw \<and> list_all (\<lambda>row. col < length row) Raw \<and> 0 \<le> K"
    using that mutation_step_total [OF _ _ K] by blast
  have partial: "\<exists>cnvs. subseq cnvs (CNVs_of Symbols)
               \<and> Significant =
                   map ((!) Symbols)
                     (filter (mutation_significant chisquare Raw Labels Tau (nat K))
                        (Mutations_of Symbols))
                   @ map ((!) Symbols) cnvs"
    if "ClusterAssociations chisquare kruskalwallis Raw Symbols Labels Tau = Inr Significant"
    for Significant
    using that ClusterAssociations_Inr [OF _ K] by blast
  have total: "\<exists>cnvs. subseq cnvs (CNVs_of Symbols)
               \<and> (K \<in> {2, 3, 4, 5} \<longrightarrow>
                     cnvs = filter (cnv_significant kruskalwallis Raw Labels Tau K) (CNVs_of Symbols))
               \<and> ClusterAssociations chisquare kruskalwallis Raw Symbols Labels Tau
                   = Inr (map ((!) Symbols)
                            (filter (mutation_significant chisquare Raw Labels Tau (nat K))
                               (Mutations_of Symbols))
                          @ map ((!) Symbols) cnvs)"
    if wf: "length Labels = length Raw \<and> 0 \<le> K
            \<and> (\<forall>c<length Symbols. list_all (\<lambda>row. c < length row) Raw)
            \<and> (\<forall>c\<in>set (Mutations_of Symbols).
                  \<exists>p. chisquare (contingency_spec Raw Labels c (nat K))
                         (expected_spec (contingency_spec Raw Labels c (nat K))) 1 = Inr p)
            \<and> (K \<in> {2, 3, 4, 5} \<longrightarrow>
                  (\<forall>c\<in>set (CNVs_of Symbols).
                     \<exists>p. kruskalwallis (map (cluster_values Raw Labels c) [1..K]) = Inr p))
            \<and> (K \<in> {2, 3, 4, 5} \<or> CNVs_of Symbols = [] \<or> Mutations_of Symbols \<noteq> [])"
  proof -
    from wf have len: "length Labels = length Raw" and pos: "0 \<le> K"
      and cols: "\<forall>c<length Symbols. list_all (\<lambda>row. c < length row) Raw"
      and chi: "\<forall>c\<in>set (Mutations_of Symbols).
                  \<exists>p. chisquare (contingency_spec Raw Labels c (nat K))
                         (expected_spec (contingency_spec Raw Labels c (nat K))) 1 = Inr p"
      and kw: "K \<in> {2, 3, 4, 5} \<longrightarrow>
                  (\<forall>c\<in>set (CNVs_of Symbols).
                     \<exists>p. kruskalwallis (map (cluster_values Raw Labels c) [1..K]) = Inr p)"
      and ready: "K \<in> {2, 3, 4, 5} \<or> CNVs_of Symbols = [] \<or> Mutations_of Symbols \<noteq> []"
      by blast+
    have mcols: "\<forall>c\<in>set (Mutations_of Symbols). list_all (\<lambda>row. c < length row) Raw"
      using cols indices_where_bound [of "\<lambda>x. x = ''Mut''" "map symbol_suffix Symbols"]
      by (auto simp: Mutations_of_def)
    have ccols: "\<forall>c\<in>set (CNVs_of Symbols). list_all (\<lambda>row. c < length row) Raw"
      using cols indices_where_bound [of "\<lambda>x. x = ''CNV''" "map symbol_suffix Symbols"]
      by (auto simp: CNVs_of_def)
    let ?muts = "map ((!) Symbols)
                   (filter (mutation_significant chisquare Raw Labels Tau (nat K))
                      (Mutations_of Symbols))"
    from mutation_loop_total [where chisquare = chisquare and cols = "Mutations_of Symbols"
        and Symbols = Symbols and Tau = Tau and st = "([], None)", OF len K pos mcols chi]
    obtain p' where mloop: "fold_err (mutation_step chisquare Raw Symbols Labels Tau)
          (Mutations_of Symbols) ([], None) = Inr (?muts, p')"
      and bound: "Mutations_of Symbols \<noteq> [] \<longrightarrow> p' \<noteq> None"
      by auto
    from ready bound have ready': "K \<in> {2, 3, 4, 5} \<or> CNVs_of Symbols = [] \<or> snd (?muts, p') \<noteq> None"
      by auto
    from cnv_loop_total [where kruskalwallis = kruskalwallis and cols = "CNVs_of Symbols"
        and Symbols = Symbols and Tau = Tau and st = "(?muts, p')", OF K len ccols kw ready']
    obtain cs p'' where cs: "subseq cs (CNVs_of Symbols)"
      and cloop: "fold_err (cnv_step kruskalwallis Raw Symbols Labels Tau) (CNVs_of Symbols) (?muts, p')
          = Inr (?muts @ map ((!) Symbols) cs, p'')"
      and exact: "K \<in> {2, 3, 4, 5} \<longrightarrow>
                 cs = filter (cnv_significant kruskalwallis Raw Labels Tau K) (CNVs_of Symbols)"
      by auto
    from mloop cloop have "ClusterAssociations chisquare kruskalwallis Raw Symbols Labels Tau
        = Inr (?muts @ map ((!) Symbols) cs)"
      by (simp add: ClusterAssociations_def)
    with cs exact show ?thesis by blast
  qed
  from step partial total show ?thesis by blast
qed

theorem C3_mutation_chi_square_witness:
  "mutation_step example_chisquare example_Raw [''A_Mut'', ''B_CNV''] example_Labels (Fin (1 / 20)) 0
       ([], None)
     = Inr ([''A_Mut''], Some (Fin (exp (- 4))))
   \<and> example_chisquare (contingency_spec example_Raw example_Labels 0 2)
        (expected_spec (contingency_spec example_Raw example_Labels 0 2)) 1 = Inr (Fin (exp (- 4)))
   \<and> example_kruskalwallis (map (cluster_values example_Raw example_Labels 1) [1..2])
        = Inr (Fin (1 / 2))
   \<and> filter (mutation_significant example_chisquare example_Raw example_Labels (Fin (1 / 20)) 2)
        (Mutations_of [''A_Mut'', ''B_CNV'']) = [0]
   \<and> filter (cnv_significant example_kruskalwallis example_Raw example_Labels (Fin (1 / 20)) 2)
        (CNVs_of [''A_Mut'', ''B_CNV'']) = []
   \<and> ClusterAssociations example_chisquare example_kruskalwallis example_Raw
        [''A_Mut'', ''B_CNV''] example_Labels (Fin (1 / 20)) = Inr [''A_Mut'']"
proof -
  let ?Symbols = "[''A_Mut'', ''B_CNV'']"
  have ne: "example_Labels \<noteq> []" and K: "(2::int) = Max (set example_Labels)"
    by (simp_all add: example_Labels_def)
  have len: "length example_Labels = length example_Raw"
    by (simp add: example_Labels_def example_Raw_def)
  have wf: "length example_Labels = length example_Raw
      \<and> list_all (\<lambda>row. 0 < length row) example_Raw \<and> (0::int) \<le> 2"
    by (simp add: example_Labels_def example_Raw_def)
  have chi: "example_chisquare (contingency_spec example_Raw example_Labels 0 2)
        (expected_spec (contingency_spec example_Raw example_Labels 0 2)) 1 = Inr (Fin (exp (- 4)))"
    by (simp only: example_table example_expected example_chisquare_value)
  have kw: "example_kruskalwallis (map (cluster_values example_Raw example_Labels 1) [1..2])
        = Inr (Fin (1 / 2))"
    by (simp add: example_kruskalwallis_def)
  have msig: "filter (mutation_significant example_chisquare example_Raw example_Labels (Fin (1 / 20)) 2)
        (Mutations_of ?Symbols) = [0]"
    using chi example_significant by (simp add: example_suffixes mutation_significant_def)
  have csig: "filter (cnv_significant example_kruskalwallis example_Raw example_Labels (Fin (1 / 20)) 2)
        (CNVs_of ?Symbols) = []"
    by (simp add: example_suffixes cnv_significant_def example_kruskalwallis_def)
  note inst = C3_mutation_chi_square [OF ne K, of example_Raw 0 example_chisquare
      ?Symbols "Fin (1 / 20)" "([], None)" example_kruskalwallis]
  from inst wf exp_minus_four have step:
    "mutation_step example_chisquare example_Raw ?Symbols example_Labels (Fin (1 / 20)) 0
       ([], None) = Inr ([''A_Mut''], Some (Fin (exp (- 4))))"
    by (simp add: example_table example_expected example_chisquare_value example_significant)
  have cols: "\<forall>c<length ?Symbols. list_all (\<lambda>row. c < length row) example_Raw"
    by (simp add: example_Raw_def)
  have tests: "\<forall>c\<in>set (Mutations_of ?Symbols).
        \<exists>p. example_chisquare (contingency_spec example_Raw example_Labels c (nat 2))
               (expected_spec (contingency_spec example_Raw example_Labels c (nat 2))) 1 = Inr p"
    using chi by (simp add: example_suffixes)
  have groups: "\<forall>c\<in>set (CNVs_of ?Symbols).
        \<exists>p. example_kruskalwallis (map (cluster_values example_Raw example_Labels c) [1..2]) = Inr p"
    by (simp add: example_kruskalwallis_def)
  from inst len cols tests groups
  obtain cnvs where "cnvs = filter (cnv_significant example_kruskalwallis example_Raw example_Labels
          (Fin (1 / 20)) 2) (CNVs_of ?Symbols)"
    and "ClusterAssociations example_chisquare example_kruskalwallis example_Raw ?Symbols
           example_Labels (Fin (1 / 20))
         = Inr (map ((!) ?Symbols)
                  (filter (mutation_significant example_chisquare example_Raw example_Labels
                     (Fin (1 / 20)) (nat 2)) (Mutations_of ?Symbols))
                @ map ((!) ?Symbols) cnvs)"
    by auto
  with msig csig have run: "ClusterAssociations example_chisquare example_kruskalwallis example_Raw
        ?Symbols example_Labels (Fin (1 / 20)) = Inr [''A_Mut'']"
    by simp
  from step chi kw msig csig run show ?thesis
    by blast
qed

subsection \<open>Symbols without an underscore\<close>

text \<open>
  A symbol gets the suffix \<^verbatim>\<open>Mut\<close> (or \<^verbatim>\<open>CNV\<close>) exactly when it ends in \<^verbatim>\<open>_Mut\<close>
  (\<^verbatim>\<open>_CNV\<close>) or is the bare word itself. A classified symbol that does contain an
  underscore is put by the rendering step into the subset of its suffix and into no
  other.
\<close>

lemma rfind_from_append:
  "rfind_from c (xs @ ys) i found = rfind_from c ys (i + length xs) (rfind_from c xs i found)"
  by (induction xs arbitrary: i found) simp_all

lemma rfind_from_absent: "c \<notin> set xs \<Longrightarrow> rfind_from c xs i found = found"
  by (induction xs arbitrary: i found) auto

lemma symbol_suffix_no_underscore:
  "CHR ''_'' \<notin> set Symbol \<Longrightarrow> symbol_suffix Symbol = Symbol"
  by (simp add: symbol_suffix_def rfind_def rfind_from_absent)

lemma symbol_suffix_last_underscore:
  assumes "CHR ''_'' \<notin> set rest"
  shows "symbol_suffix (lead @ CHR ''_'' # rest) = rest"
proof -
  have "rfind (lead @ CHR ''_'' # rest) CHR ''_'' = int (length lead)"
    using assms by (simp add: rfind_def rfind_from_append rfind_from_absent)
  moreover have "nat (int (length lead) + 1) = Suc (length lead)"
    by simp
  ultimately show ?thesis
    by (simp only: symbol_suffix_def) simp
qed

lemma suffix_tag_iff:
  assumes "tag = ''Mut'' \<or> tag = ''CNV''"
  shows "symbol_suffix Symbol = tag \<longleftrightarrow> Symbol = tag \<or> (\<exists>lead. Symbol = lead @ CHR ''_'' # tag)"
proof
  assume sfx: "symbol_suffix Symbol = tag"
  show "Symbol = tag \<or> (\<exists>lead. Symbol = lead @ CHR ''_'' # tag)"
  proof (cases "CHR ''_'' \<in> set Symbol")
    case False
    with sfx show ?thesis by (simp add: symbol_suffix_no_underscore)
  next
    case True
    then obtain lead rest where split: "Symbol = lead @ CHR ''_'' # rest"
      and last: "CHR ''_'' \<notin> set rest"
      by (auto dest: split_list_last)
    with sfx have "rest = tag" by (simp add: symbol_suffix_last_underscore)
    with split show ?thesis by blast
  qed
next
  assume "Symbol = tag \<or> (\<exists>lead. Symbol = lead @ CHR ''_'' # tag)"
  then show "symbol_suffix Symbol = tag"
  proof
    assume "Symbol = tag"
    with assms show ?thesis by (auto simp: symbol_suffix_no_underscore)
  next
    assume "\<exists>lead. Symbol = lead @ CHR ''_'' # tag"
    then obtain lead where "Symbol = lead @ CHR ''_'' # tag" ..
    moreover from assms have "CHR ''_'' \<notin> set tag" by auto
    ultimately show ?thesis by (simp add: symbol_suffix_last_underscore)
  qed
qed

lemma dropWhile_keeps_tail:
  "\<not> P x \<Longrightarrow> \<exists>front. dropWhile P (lead @ x # xs) = front @ x # xs"
  by (induction lead) (auto intro: exI [of _ "[]"] exI [of _ "_ # _"])

lemma last4_strip_tagged:
  assumes "tag = ''Mut'' \<or> tag = ''CNV''"
  shows "last4 (strip (lead @ CHR ''_'' # tag)) = CHR ''_'' # tag"
proof -
  have "\<not> is_space CHR ''_''"
    by (simp add: is_space_def)
  from dropWhile_keeps_tail [where P = is_space and lead = lead and xs = tag, OF this]
  obtain front where front: "dropWhile is_space (lead @ CHR ''_'' # tag) = front @ CHR ''_'' # tag"
    by blast
  from assms have "dropWhile is_space (rev tag @ CHR ''_'' # rev front) = rev tag @ CHR ''_'' # rev front"
    by (auto simp: is_space_def)
  with front have "strip (lead @ CHR ''_'' # tag) = front @ CHR ''_'' # tag"
    by (simp add: strip_def)
  moreover from assms have "length tag = 3" by auto
  ultimately show ?thesis
    by (simp add: last4_def)
qed

lemma underscore_symbol_in_one_track:
  assumes "symbol_suffix Symbol = ''Mut'' \<or> symbol_suffix Symbol = ''CNV''"
      and "CHR ''_'' \<in> set Symbol"
  shows "SigMut [Symbol] = (if symbol_suffix Symbol = ''Mut'' then [Symbol] else [])
       \<and> SigCNV [Symbol] = (if symbol_suffix Symbol = ''CNV'' then [Symbol] else [])"
proof -
  from assms(1) obtain tag where tag: "tag = ''Mut'' \<or> tag = ''CNV''" and sfx: "symbol_suffix Symbol = tag"
    by blast
  from assms(2) tag have "Symbol \<noteq> tag" by auto
  with suffix_tag_iff [OF tag, of Symbol] sfx obtain lead where "Symbol = lead @ CHR ''_'' # tag"
    by blast
  with last4_strip_tagged [OF tag, of lead] have "last4 (strip Symbol) = CHR ''_'' # tag"
    by simp
  with tag sfx show ?thesis
    by (auto simp: SigMut_def SigCNV_def)
qed

text \<open>
  C5 (the code departs from the claim). The symbol \<^verbatim>\<open>Mut\<close> has no underscore and so no
  suffix; \<^verbatim>\<open>rfind\<close> returns \<open>-1\<close>, the slice starts at 0, and the whole symbol is taken
  for the suffix: the feature is a mutation feature and is tested (the chi-square routine
  is called: if it raises, the call raises). The same holds for \<^verbatim>\<open>CNV\<close>.
\<close>

theorem C5_bare_Mut_is_tested:
  "symbol_suffix ''Mut'' = ''Mut'' \<and> Mutations_of [''Mut''] = [0] \<and> CNVs_of [''CNV''] = [0]
   \<and> ClusterAssociations (\<lambda>Observed Expected' ddof. Inl LibraryError) kruskalwallis
        [[Fin 0]] [''Mut''] [1] Tau = Inl LibraryError"
  by (simp add: ClusterAssociations_def Mutations_of_def CNVs_of_def indices_where_def
      symbol_suffix_def rfind_def mutation_step_def contingency_def Observed_table_def
      Observed_step_def masked_column_def enumerate_eq_zip numeral_2_eq_2)

text \<open>
  C8 (the code departs from the claim). On the example data with the single symbol
  \<^verbatim>\<open>Mut\<close>, a chi-square p-value below \<open>Tau\<close> puts \<^verbatim>\<open>Mut\<close> on the significant list,
  and the rendering step, which compares the last four characters with \<^verbatim>\<open>_Mut\<close> and
  \<^verbatim>\<open>_CNV\<close>, puts it in neither subset.
\<close>

theorem C8_bare_symbol_in_no_track:
  assumes "chisquare [[4, 0], [0, 4]] [[Fin 2, Fin 2], [Fin 2, Fin 2]] 1 = Inr p" and "flt p Tau"
  shows "ClusterAssociations chisquare kruskalwallis example_Raw [''Mut''] example_Labels Tau
           = Inr [''Mut'']
         \<and> SigMut [''Mut''] = [] \<and> SigCNV [''Mut''] = []"
proof -
  have sfx: "Mutations_of [''Mut''] = [0]" "CNVs_of [''Mut''] = []"
    by (simp_all add: Mutations_of_def CNVs_of_def indices_where_def symbol_suffix_def rfind_def
        enumerate_eq_zip)
  have "mutation_step chisquare example_Raw [''Mut''] example_Labels Tau 0 ([], None)
      = Inr ([''Mut''], Some p)"
    using assms by (simp add: mutation_step_def example_contingency example_Expected)
  then have "ClusterAssociations chisquare kruskalwallis example_Raw [''Mut''] example_Labels Tau
           = Inr [''Mut'']"
    by (simp add: ClusterAssociations_def sfx)
  moreover have "SigMut [''Mut''] = [] \<and> SigCNV [''Mut''] = []"
    by (simp add: SigMut_def SigCNV_def last4_def strip_def is_space_def)
  ultimately show ?thesis by simp
qed

theorem C8_bare_symbol_in_no_track_witness:
  "example_chisquare [[4, 0], [0, 4]] [[Fin 2, Fin 2], [Fin 2, Fin 2]] 1 = Inr (Fin (exp (- 4)))
   \<and> flt (Fin (exp (- 4))) (Fin (1 / 20))
   \<and> ClusterAssociations example_chisquare example_kruskalwallis example_Raw [''Mut'']
        example_Labels (Fin (1 / 20)) = Inr [''Mut'']
   \<and> SigMut [''Mut''] = [] \<and> SigCNV [''Mut''] = []"
  using C8_bare_symbol_in_no_track
          [where chisquare = example_chisquare and kruskalwallis = example_kruskalwallis,
           OF example_chisquare_value example_significant]
        example_chisquare_value example_significant
  by simp

subsection \<open>Samples whose value is neither 0 nor 1\<close>

lemma length_filter_disj:
  "(\<And>x. x \<in> set xs \<Longrightarrow> \<not> (P x \<and> Q x)) \<Longrightarrow>
   length (filter (\<lambda>x. P x \<or> Q x) xs) = length (filter P xs) + length (filter Q xs)"
  by (induction xs) auto

lemma cluster_counts_sum:
  "(\<Sum>k\<leftarrow>[0..<K]. length (filter (\<lambda>s. L s = int k + 1 \<and> P s) xs))
     = length (filter (\<lambda>s. 1 \<le> L s \<and> L s \<le> int K \<and> P s) xs)"
proof (induction K)
  case 0
  have "filter (\<lambda>s. 1 \<le> L s \<and> L s \<le> int 0 \<and> P s) xs = []"
    by (induction xs) auto
  then show ?case by simp
next
  case (Suc K)
  have split: "(\<lambda>s. 1 \<le> L s \<and> L s \<le> int (Suc K) \<and> P s)
      = (\<lambda>s. (1 \<le> L s \<and> L s \<le> int K \<and> P s) \<or> (L s = int K + 1 \<and> P s))"
    by (rule ext) auto
  have "length (filter (\<lambda>s. 1 \<le> L s \<and> L s \<le> int (Suc K) \<and> P s) xs)
      = length (filter (\<lambda>s. 1 \<le> L s \<and> L s \<le> int K \<and> P s) xs)
        + length (filter (\<lambda>s. L s = int K + 1 \<and> P s) xs)"
    unfolding split by (rule length_filter_disj) auto
  with Suc show ?case by simp
qed

lemma contingency_spec_total:
  "sum_list (concat (contingency_spec Raw Labels col K))
     = length (contributing Raw Labels col (int K))"
proof -
  let ?n = "\<lambda>v. length (filter (\<lambda>s. 1 \<le> Labels ! s \<and> Labels ! s \<le> int K \<and> Raw ! s ! col = Fin v)
                            [0..<length Raw])"
  have row: "(\<Sum>k\<leftarrow>[0..<K]. cluster_count Raw Labels col v (int k + 1)) = ?n v" for v
    using cluster_counts_sum [of "\<lambda>s. Labels ! s" "\<lambda>s. Raw ! s ! col = Fin v" "[0..<length Raw]" K]
    by (simp add: cluster_count_def)
  have "length (contributing Raw Labels col (int K)) = ?n 0 + ?n 1"
  proof -
    have "(\<lambda>s. 1 \<le> Labels ! s \<and> Labels ! s \<le> int K
              \<and> (feq (Raw ! s ! col) (Fin 0) \<or> feq (Raw ! s ! col) (Fin 1)))
        = (\<lambda>s. (1 \<le> Labels ! s \<and> Labels ! s \<le> int K \<and> Raw ! s ! col = Fin 0)
              \<or> (1 \<le> Labels ! s \<and> Labels ! s \<le> int K \<and> Raw ! s ! col = Fin 1))"
      by (rule ext) auto
    then show ?thesis
      unfolding contributing_def by (simp only:) (rule length_filter_disj, auto)
  qed
  moreover have "sum_list (concat (contingency_spec Raw Labels col K)) = ?n 0 + ?n 1"
    using row [of 0] row [of 1] by (simp add: contingency_spec_def comp_def)
  ultimately show ?thesis by simp
qed

lemma cluster_count_zip:
  assumes "length Labels = length Raw"
  shows "cluster_count Raw Labels col v j
           = length (filter (\<lambda>(l, row). l = j \<and> feq (row ! col) (Fin v)) (zip Labels Raw))"
  by (simp add: cluster_count_def zip_as_indices [OF assms] filter_map comp_def)

lemma cluster_count_binary_rows:
  assumes "length Labels = length Raw" and "v = 0 \<or> v = 1"
  shows "cluster_count (map snd (binary_rows Raw Labels col)) (map fst (binary_rows Raw Labels col))
           col v j
         = cluster_count Raw Labels col v j"
proof -
  let ?kept = "binary_rows Raw Labels col"
  have "cluster_count (map snd ?kept) (map fst ?kept) col v j
      = length (filter (\<lambda>(l, row). l = j \<and> feq (row ! col) (Fin v)) ?kept)"
    by (simp add: cluster_count_zip zip_map_fst_snd)
  also have "\<dots> = length (filter (\<lambda>(l, row). l = j \<and> feq (row ! col) (Fin v)) (zip Labels Raw))"
    using assms(2) unfolding binary_rows_def filter_filter
    by (intro arg_cong [where f = length] filter_cong) auto
  finally show ?thesis
    by (simp add: cluster_count_zip [OF assms(1)])
qed

lemma contingency_spec_binary_rows:
  assumes "length Labels = length Raw"
  shows "contingency_spec (map snd (binary_rows Raw Labels col)) (map fst (binary_rows Raw Labels col))
           col K
         = contingency_spec Raw Labels col K"
  using assms by (simp add: contingency_spec_def cluster_count_binary_rows)

lemma contributing_le: "length (contributing Raw Labels col K) \<le> length Raw"
  using length_filter_le [of _ "[0..<length Raw]"] by (simp add: contributing_def)

text \<open>
  C10 (amended). The table of a mutation feature counts exactly the samples whose raw
  value is 0 or 1 (and whose label is one of \<open>1..K\<close>): its total is their number, which
  can be less than the number of samples. The table is the one the loop builds from the
  data set with every other sample removed, but with the number of columns \<open>K\<close> still
  the maximum label over all the samples, and the chi-square decision is taken on that
  table. It is the decision the function takes on the remaining samples alone when
  their maximum label is still \<open>K\<close>.
\<close>

theorem C10_only_binary_values_counted:
  assumes "length Labels = length Raw" and "list_all (\<lambda>row. col < length row) Raw"
      and "Labels \<noteq> []" and "K = Max (set Labels)" and "0 \<le> K"
  shows "\<exists>Observed.
           contingency Raw Labels col = Inr Observed
         \<and> Observed = contingency_spec Raw Labels col (nat K)
         \<and> sum_list (concat Observed) = length (contributing Raw Labels col K)
         \<and> sum_list (concat Observed) \<le> length Raw
         \<and> Observed_table (map snd (binary_rows Raw Labels col))
             (map fst (binary_rows Raw Labels col)) col K = Inr Observed
         \<and> mutation_step chisquare Raw Symbols Labels Tau col st
             = (case chisquare Observed (Expected Observed) 1 of
                  Inl e \<Rightarrow> Inl e
                | Inr p \<Rightarrow> Inr (if flt p Tau then fst st @ [Symbols ! col] else fst st, Some p))
         \<and> (binary_rows Raw Labels col \<noteq> []
              \<and> Max (set (map fst (binary_rows Raw Labels col))) = K \<longrightarrow>
                contingency (map snd (binary_rows Raw Labels col))
                  (map fst (binary_rows Raw Labels col)) col = Inr Observed
              \<and> mutation_step chisquare (map snd (binary_rows Raw Labels col)) Symbols
                  (map fst (binary_rows Raw Labels col)) Tau col st
                = mutation_step chisquare Raw Symbols Labels Tau col st)"
proof -
  let ?kept = "binary_rows Raw Labels col"
  let ?tab = "contingency_spec Raw Labels col (nat K)"
  from assms(3,4) have K: "np_max Labels = Inr K"
    by (simp add: np_max_Max)
  have "Observed_table Raw Labels col K = Inr ?tab"
    using assms(1,2,5) by (rule Observed_table_spec)
  with K have all: "contingency Raw Labels col = Inr ?tab"
    by (simp add: contingency_def)
  have "set (map snd ?kept) \<subseteq> set Raw"
    by (auto simp: binary_rows_def dest: set_zip_rightD)
  with assms(2) have cols: "list_all (\<lambda>row. col < length row) (map snd ?kept)"
    by (auto simp: list_all_iff)
  have "Observed_table (map snd ?kept) (map fst ?kept) col K
      = Inr (contingency_spec (map snd ?kept) (map fst ?kept) col (nat K))"
    using cols assms(5) by (intro Observed_table_spec) simp_all
  then have kept: "Observed_table (map snd ?kept) (map fst ?kept) col K = Inr ?tab"
    by (simp add: contingency_spec_binary_rows [OF assms(1)])
  have total: "sum_list (concat ?tab) = length (contributing Raw Labels col K)"
    using contingency_spec_total [of Raw Labels col "nat K"] assms(5) by simp
  have step: "mutation_step chisquare Raw Symbols Labels Tau col st
             = (case chisquare ?tab (Expected ?tab) 1 of
                  Inl e \<Rightarrow> Inl e
                | Inr p \<Rightarrow> Inr (if flt p Tau then fst st @ [Symbols ! col] else fst st, Some p))"
    using all by (simp add: mutation_step_def)
  have same: "contingency (map snd ?kept) (map fst ?kept) col = Inr ?tab
        \<and> mutation_step chisquare (map snd ?kept) Symbols (map fst ?kept) Tau col st
            = mutation_step chisquare Raw Symbols Labels Tau col st"
    if "?kept \<noteq> [] \<and> Max (set (map fst ?kept)) = K"
  proof -
    from that have "np_max (map fst ?kept) = Inr K"
      using np_max_Max [of "map fst ?kept"] by simp
    with kept have "contingency (map snd ?kept) (map fst ?kept) col = Inr ?tab"
      by (simp add: contingency_def)
    with all show ?thesis
      by (simp add: mutation_step_def)
  qed
  from all kept total step contributing_le [of Raw Labels col K] same show ?thesis
    by simp
qed

theorem C10_only_binary_values_counted_witness:
  "contingency [[Fin 0], [Fin 2], [NaN], [Fin 1]] [1, 1, 2, 2] 0 = Inr [[1, 0], [0, 1]]
   \<and> sum_list (concat [[1, 0], [0, 1 :: nat]]) < length [[Fin 0], [Fin 2], [NaN], [Fin 1]]
   \<and> contributing [[Fin 0], [Fin 2], [NaN], [Fin 1]] [1, 1, 2, 2] 0 2 = [0, 3]
   \<and> binary_rows [[Fin 0], [Fin 2], [NaN], [Fin 1]] [1, 1, 2, 2] 0 = [(1, [Fin 0]), (2, [Fin 1])]
   \<and> Observed_table [[Fin 0], [Fin 1]] [1, 2] 0 2 = Inr [[1, 0], [0, 1]]
   \<and> contingency [[Fin 0], [Fin 1]] [1, 2] 0 = Inr [[1, 0], [0, 1]]"
proof -
  let ?Raw = "[[Fin 0], [Fin 2], [NaN], [Fin 1]]"
  let ?Labels = "[1, 1, 2, 2 :: int]"
  have a: "length ?Labels = length ?Raw" and b: "list_all (\<lambda>row. 0 < length row) ?Raw"
    and c: "?Labels \<noteq> []" and d: "(2::int) = Max (set ?Labels)" and e: "(0::int) \<le> 2"
    by simp_all
  have rows: "binary_rows ?Raw ?Labels 0 = [(1, [Fin 0]), (2, [Fin 1])]"
    by (simp add: binary_rows_def)
  have tab: "contingency_spec ?Raw ?Labels 0 (nat 2) = [[1, 0], [0, 1]]"
    by (simp add: contingency_spec_def cluster_count_def upt_rec numeral_2_eq_2)
  have who: "contributing ?Raw ?Labels 0 2 = [0, 3]"
    by (simp add: contributing_def upt_rec eval_nat_numeral)
  from C10_only_binary_values_counted [OF a b c d e, of example_chisquare "[''A_Mut'']"
      "Fin (1 / 20)" "([], None)"] tab
  have "contingency ?Raw ?Labels 0 = Inr [[1, 0], [0, 1]]
      \<and> Observed_table (map snd (binary_rows ?Raw ?Labels 0)) (map fst (binary_rows ?Raw ?Labels 0)) 0 2
          = Inr [[1, 0], [0, 1]]
      \<and> (binary_rows ?Raw ?Labels 0 \<noteq> []
           \<and> Max (set (map fst (binary_rows ?Raw ?Labels 0))) = 2 \<longrightarrow>
             contingency (map snd (binary_rows ?Raw ?Labels 0))
               (map fst (binary_rows ?Raw ?Labels 0)) 0 = Inr [[1, 0], [0, 1]])"
    by auto
  with rows who show ?thesis by simp
qed

lemma outlier_contingency:
  "contingency outlier_Raw outlier_Labels 0 = Inr [[4, 0, 0], [0, 4, 0]]"
proof -
  have "np_max outlier_Labels = Inr 3"
    by (simp add: outlier_Labels_def example_Labels_def)
  moreover have "Observed_table outlier_Raw outlier_Labels 0 3
      = Inr (contingency_spec outlier_Raw outlier_Labels 0 (nat 3))"
    by (rule Observed_table_spec)
      (simp_all add: outlier_Raw_def outlier_Labels_def example_Raw_def example_Labels_def)
  moreover have "contingency_spec outlier_Raw outlier_Labels 0 (nat 3) = [[4, 0, 0], [0, 4, 0]]"
    by (simp add: contingency_spec_def cluster_count_def outlier_Raw_def outlier_Labels_def
        example_Raw_def example_Labels_def upt_rec eval_nat_numeral)
  ultimately show ?thesis
    by (simp add: contingency_def)
qed

lemma outlier_Expected:
  "Expected [[4, 0, 0], [0, 4, 0]] = [[Fin 2, Fin 2, Fin 0], [Fin 2, Fin 2, Fin 0]]"
  by (simp add: Expected_def sum_axis0_def sum_axis1_def outer_def fdiv_def upt_rec
      eval_nat_numeral)

lemma outlier_chisquare:
  "example_chisquare [[4, 0, 0], [0, 4, 0]] [[Fin 2, Fin 2, Fin 0], [Fin 2, Fin 2, Fin 0]] ddof
     = Inr NaN"
  by (simp add: example_chisquare_def chisquare_scipy_def example_sf_def fdiv_def)

lemma outlier_binary_rows:
  "binary_rows outlier_Raw outlier_Labels 0 = zip example_Labels example_Raw"
  by (simp add: binary_rows_def outlier_Raw_def outlier_Labels_def example_Raw_def
      example_Labels_def)

text \<open>
  The decision is not the one the remaining samples alone would give: a sample of value
  2 that is alone in cluster 3 is counted in no row, yet it leaves a third, empty column
  in the table, whose expected counts are 0, and the p-value is NaN; without that sample
  the table has two columns and the feature is reported.
\<close>

theorem C10_removed_sample_changes_decision_counterexample:
  "contingency outlier_Raw outlier_Labels 0 = Inr [[4, 0, 0], [0, 4, 0]]
   \<and> mutation_step example_chisquare outlier_Raw [''A_Mut''] outlier_Labels (Fin (1 / 20)) 0
        ([], None) = Inr ([], Some NaN)
   \<and> map snd (binary_rows outlier_Raw outlier_Labels 0) = example_Raw
   \<and> map fst (binary_rows outlier_Raw outlier_Labels 0) = example_Labels
   \<and> contingency example_Raw example_Labels 0 = Inr [[4, 0], [0, 4]]
   \<and> mutation_step example_chisquare example_Raw [''A_Mut''] example_Labels (Fin (1 / 20)) 0
        ([], None) = Inr ([''A_Mut''], Some (Fin (exp (- 4))))"
proof -
  have a: "mutation_step example_chisquare outlier_Raw [''A_Mut''] outlier_Labels (Fin (1 / 20)) 0
        ([], None) = Inr ([], Some NaN)"
    by (simp add: mutation_step_def outlier_contingency outlier_Expected outlier_chisquare)
  have len: "length example_Labels = length example_Raw"
    by (simp add: example_Labels_def example_Raw_def)
  have b: "map snd (binary_rows outlier_Raw outlier_Labels 0) = example_Raw"
    and c: "map fst (binary_rows outlier_Raw outlier_Labels 0) = example_Labels"
    using len by (simp_all add: outlier_binary_rows)
  have d: "mutation_step example_chisquare example_Raw [''A_Mut''] example_Labels (Fin (1 / 20)) 0
        ([], None) = Inr ([''A_Mut''], Some (Fin (exp (- 4))))"
    using example_significant
    by (simp add: mutation_step_def example_contingency example_Expected example_chisquare_value)
  from a b c d outlier_contingency example_contingency show ?thesis
    by simp
qed

subsection \<open>Zero marginals\<close>

lemma expected_spec_cell:
  assumes "r < 2" and "k < length (tab ! 0)"
  shows "expected_spec tab ! r ! k
           = fdiv (real (sum_list (tab ! r) * (tab ! 0 ! k + tab ! 1 ! k)))
                  (real (sum_list (tab ! 0) + sum_list (tab ! 1)))"
proof -
  from assms(1) have "r = 0 \<or> r = 1" by auto
  then show ?thesis
    using assms(2) by (auto simp: expected_spec_def)
qed

lemma fdiv_zero_numerator: "fdiv 0 y = NaN \<or> fdiv 0 y = Fin 0"
  by (simp add: fdiv_def)

lemma zero_marginal_degenerate:
  assumes "length r0 = length r1" and "0 < length r0" and "zero_marginal [r0, r1]"
  shows "degenerate_cell [r0, r1] (expected_spec [r0, r1])"
proof -
  let ?tab = "[r0, r1]"
  let ?E = "expected_spec ?tab"
  have cell: "?E ! r ! k = fdiv (real (sum_list (?tab ! r) * (r0 ! k + r1 ! k)))
                               (real (sum_list r0 + sum_list r1))"
    if "r < 2" "k < length r0" for r k
    using expected_spec_cell [of r k ?tab] that by simp
  have deg: "degenerate_cell ?tab ?E"
    if "r < 2" "k < length r0" "sum_list (?tab ! r) * (r0 ! k + r1 ! k) = 0" "?tab ! r ! k = 0" for r k
  proof -
    from cell [OF that(1,2)] that(3) fdiv_zero_numerator
    have "?E ! r ! k = NaN \<or> ?E ! r ! k = Fin 0"
      by simp
    with that(4) have "?E ! r ! k = NaN \<or> (?E ! r ! k = Fin 0 \<and> ?tab ! r ! k = 0)"
      by blast
    moreover from that(1,2) assms(1) have "r \<in> set [0..<length ?tab]" "k \<in> set [0..<length (?tab ! r)]"
      by (auto simp: less_Suc_eq numeral_2_eq_2)
    ultimately show ?thesis
      unfolding degenerate_cell_def list_ex_iff by blast
  qed
  have zero_row: "r0 ! k = 0" if "sum_list r0 = 0" "k < length r0" for k and r0 :: "nat list"
    using that by (auto simp: sum_list_eq_0_iff)
  from assms(3) consider "sum_list r0 = 0" | "sum_list r1 = 0"
    | k where "k < length r0" "r0 ! k + r1 ! k = 0"
    by (auto simp: zero_marginal_def list_ex_iff)
  then show ?thesis
  proof cases
    case 1
    with assms(2) zero_row [of r0 0] show ?thesis
      by (intro deg [of 0 0]) simp_all
  next
    case 2
    with assms(1,2) zero_row [of r1 0] show ?thesis
      by (intro deg [of 1 0]) simp_all
  next
    case 3
    then show ?thesis
      by (intro deg [of 0 k]) simp_all
  qed
qed

lemma zero_marginal_step:
  assumes "propagates_nan chisquare"
      and "contingency Raw Labels col = Inr Observed"
      and "0 < length (hd Observed)"
      and "zero_marginal Observed"
  shows "map length Observed = map length (Expected Observed)
         \<and> degenerate_cell Observed (Expected Observed)
         \<and> mutation_step chisquare Raw Symbols Labels Tau col (Significant, p)
             = Inr (Significant, Some NaN)"
proof -
  from assms(2) obtain K where K: "np_max Labels = Inr K"
    by (auto simp: contingency_def split: sum.splits)
  from contingency_Inr [OF assms(2) K]
  have tab: "Observed = contingency_spec Raw Labels col (nat K)" by simp
  obtain r0 r1 where rows: "Observed = [r0, r1]" "length r0 = length r1"
    unfolding tab contingency_spec_rows by simp
  with assms(3,4) have "degenerate_cell [r0, r1] (expected_spec [r0, r1])"
    by (intro zero_marginal_degenerate) simp_all
  with rows have deg: "degenerate_cell Observed (Expected Observed)"
    by (simp add: Expected_two_rows)
  from rows have shape: "map length Observed = map length (Expected Observed)"
    by (simp add: Expected_two_rows expected_spec_def)
  with assms(1) deg have "chisquare Observed (Expected Observed) 1 = Inr NaN"
    by (simp add: propagates_nan_def)
  with assms(2) deg shape show ?thesis
    by (simp add: mutation_step_def)
qed

text \<open>
  C6. When the table of a mutation feature (with at least one cluster column) has a zero
  row total or a zero column total, some cell has a degenerate expected count (NaN when
  the whole table is empty, and otherwise 0 against an observed 0, whose chi-square term
  is the division \<^verbatim>\<open>0/0\<close>), so the chi-square statistic is NaN. The function has no
  branch for it: with scipy's chi-square routine, whose survival function passes NaN on,
  the step raises nothing, leaves NaN in \<^verbatim>\<open>p\<close> and appends nothing, since
  \<^verbatim>\<open>NaN < Tau\<close> is false.
\<close>

theorem C6_zero_marginal_not_significant:
  assumes "\<forall>df. sf NaN df = NaN"
      and "contingency Raw Labels col = Inr Observed"
      and "0 < length (hd Observed)"
      and "zero_marginal Observed"
  shows "degenerate_cell Observed (Expected Observed)
         \<and> foldl fadd (Fin 0) (map2 chi_term (concat Observed) (concat (Expected Observed))) = NaN
         \<and> mutation_step (chisquare_scipy sf) Raw Symbols Labels Tau col (Significant, p)
             = Inr (Significant, Some NaN)"
proof -
  have "propagates_nan (chisquare_scipy sf)"
    using assms(1) by (rule chisquare_scipy_propagates)
  from zero_marginal_step [OF this assms(2-4)]
  have shape: "map length Observed = map length (Expected Observed)"
    and deg: "degenerate_cell Observed (Expected Observed)"
    and step: "mutation_step (chisquare_scipy sf) Raw Symbols Labels Tau col (Significant, p)
             = Inr (Significant, Some NaN)"
    by blast+
  from degenerate_statistic [OF shape deg] deg step show ?thesis
    by simp
qed

theorem C6_zero_marginal_not_significant_witness:
  "contingency [[Fin 0], [Fin 0], [Fin 0], [Fin 0]] [1, 1, 2, 2] 0 = Inr [[2, 2], [0, 0]]
   \<and> zero_marginal [[2, 2], [0, 0]]
   \<and> Expected [[2, 2], [0, 0]] = [[Fin 2, Fin 2], [Fin 0, Fin 0]]
   \<and> mutation_step example_chisquare [[Fin 0], [Fin 0], [Fin 0], [Fin 0]] [''A_Mut'']
        [1, 1, 2, 2] (Fin (1 / 20)) 0 ([], None) = Inr ([], Some NaN)"
proof -
  let ?Raw = "[[Fin 0], [Fin 0], [Fin 0], [Fin 0]]"
  let ?Labels = "[1, 1, 2, 2 :: int]"
  have sf: "\<forall>df. example_sf NaN df = NaN"
    by (simp add: example_sf_def)
  have "Observed_table ?Raw ?Labels 0 2 = Inr (contingency_spec ?Raw ?Labels 0 (nat 2))"
    by (rule Observed_table_spec) simp_all
  then have tab: "contingency ?Raw ?Labels 0 = Inr [[2, 2], [0, 0]]"
    by (simp add: contingency_def contingency_spec_def cluster_count_def upt_rec numeral_2_eq_2)
  have cols: "0 < length (hd [[2, 2], [0, 0 :: nat]])"
    by simp
  have zm: "zero_marginal [[2, 2], [0, 0]]"
    by (simp add: zero_marginal_def)
  have ex: "Expected [[2, 2], [0, 0]] = [[Fin 2, Fin 2], [Fin 0, Fin 0]]"
    by (simp add: Expected_def sum_axis0_def sum_axis1_def outer_def fdiv_def upt_rec numeral_2_eq_2)
  from C6_zero_marginal_not_significant [where sf = example_sf, OF sf tab cols zm] tab zm ex
  show ?thesis by (simp add: example_chisquare_def)
qed

section \<open>Properties of the shuffles\<close>

lemma mset_reindex:
  assumes "mset p = mset [0..<length ix]"
  shows "mset (map ((!) ix) p) = mset ix"
proof -
  have "mset (map ((!) ix) p) = image_mset ((!) ix) (mset p)" by simp
  also have "\<dots> = mset (map ((!) ix) [0..<length ix])" using assms by simp
  finally show ?thesis by (simp add: map_nth)
qed

lemma row_order_perm:
  assumes "\<forall>j<i. mset (permutation j n) = mset [0..<n]"
  shows "mset (row_order permutation n i) = mset [0..<n]"
  using assms
proof (induction i)
  case 0
  then show ?case by simp
next
  case (Suc i)
  then have ih: "mset (row_order permutation n i) = mset [0..<n]" by simp
  then have len: "length (row_order permutation n i) = n"
    by (metis length_upt mset_eq_length minus_nat.diff_0)
  from Suc.prems have "mset (permutation i n) = mset [0..<length (row_order permutation n i)]"
    by (simp add: len)
  from mset_reindex [OF this] ih show ?case by simp
qed

lemma row_order_length:
  "\<forall>j<i. mset (permutation j n) = mset [0..<n] \<Longrightarrow> length (row_order permutation n i) = n"
  using row_order_perm [of i permutation n] by (metis length_upt mset_eq_length minus_nat.diff_0)

lemma take_rows_map:
  assumes "mset order = mset [0..<length ix]"
  shows "take_rows (map f ix) order = Inr (map f (map ((!) ix) order))"
proof -
  from assms have "set order = {0..<length ix}"
    by (metis mset_eq_setD set_upt)
  then show ?thesis
    by (auto simp: take_rows_def list_all_iff)
qed

lemma shuffle_iteration_rows:
  assumes "mset (permutation i n) = mset [0..<n]" and "length ix = n"
  shows "shuffle_iteration permutation i (rows_of X T Obs ix)
           = Inr (rows_of X T Obs (map ((!) ix) (permutation i n)),
                  \<lparr> train_set = rows_of X T Obs (train_rows (map ((!) ix) (permutation i n))),
                    test_set = rows_of X T Obs (test_rows (map ((!) ix) (permutation i n))),
                    val_set = rows_of X T Obs (val_rows (map ((!) ix) (permutation i n))) \<rparr>)"
proof -
  from assms have p: "mset (permutation i n) = mset [0..<length ix]" by simp
  show ?thesis
    using assms(2)
    by (simp add: shuffle_iteration_def rows_of_def take_rows_map [OF p] Let_def
        train_rows_def test_rows_def val_rows_def slice_def take_map drop_map)
qed

lemma run_shuffles_rows:
  assumes "\<forall>j<a + k. mset (permutation j n) = mset [0..<n]" and "length X = n"
  shows "run_shuffles permutation [a..<a + k] (rows_of X T Obs (row_order permutation n a))
           = Inr (map (partitions_at permutation X T Obs) [a..<a + k])"
  using assms(1)
proof (induction k arbitrary: a)
  case 0
  then show ?case by simp
next
  case (Suc k)
  have list: "[a..<a + Suc k] = a # [Suc a..<Suc a + k]"
    by (simp add: upt_rec)
  from Suc.prems have pa: "mset (permutation a n) = mset [0..<n]"
    and before: "\<forall>j<a. mset (permutation j n) = mset [0..<n]"
    and rest: "\<forall>j<Suc a + k. mset (permutation j n) = mset [0..<n]"
    by simp_all
  have len: "length (row_order permutation n a) = n"
    using before by (rule row_order_length)
  show ?case
    unfolding list
    using shuffle_iteration_rows [where permutation = permutation and i = a and n = n
            and ix = "row_order permutation n a" and X = X and T = T and Obs = Obs, OF pa len]
          Suc.IH [OF rest] assms(2)
    by (simp add: partitions_at_def Let_def)
qed

lemma row_split:
  "test_rows ix @ val_rows ix @ train_rows ix = ix"
proof -
  let ?f = "fold_size_of (length ix)"
  have "take ?f (drop ?f ix) @ drop (2 * ?f) ix = drop ?f ix"
    using append_take_drop_id [of ?f "drop ?f ix"] by (simp add: mult_2)
  then show ?thesis
    by (simp add: test_rows_def val_rows_def train_rows_def)
qed

lemma row_sizes:
  "length (test_rows ix) = fold_size_of (length ix)"
  "length (val_rows ix) = fold_size_of (length ix)"
  "length (train_rows ix) = length ix - 2 * fold_size_of (length ix)"
  by (simp_all add: test_rows_def val_rows_def train_rows_def fold_size_of_def)

lemma rows_disjoint:
  assumes "distinct ix"
  shows "set (test_rows ix) \<inter> set (val_rows ix) = {}"
    and "set (test_rows ix) \<inter> set (train_rows ix) = {}"
    and "set (val_rows ix) \<inter> set (train_rows ix) = {}"
proof -
  from assms have "distinct (test_rows ix @ val_rows ix @ train_rows ix)"
    by (simp only: row_split)
  then show "set (test_rows ix) \<inter> set (val_rows ix) = {}"
    and "set (test_rows ix) \<inter> set (train_rows ix) = {}"
    and "set (val_rows ix) \<inter> set (train_rows ix) = {}"
    by auto
qed

text \<open>
  C9. For row arrays of equal length \<open>n\<close> and a generator that returns permutations of
  \<open>0..n-1\<close>, every iteration \<open>i\<close> succeeds and splits the rows, taken in the order \<open>ix\<close>
  that the permutation of seed \<open>i\<close> gives the rows of the previous iteration, into test
  (the first \<open>20n div 100\<close>), validation (the next \<open>20n div 100\<close>) and train (the rest).
  \<open>ix\<close> is a permutation of the original indices, the three index ranges are pairwise
  disjoint and make up \<open>ix\<close>, and each partition takes its features, times and flags at
  the same indices.
\<close>

theorem C9_shuffle_partitions:
  assumes "length X = n" and "length T = n" and "length Obs = n"
      and "\<forall>seed<N_SHUFFLES. mset (permutation seed n) = mset [0..<n]"
      and "i < N_SHUFFLES"
  shows "\<exists>parts ix.
           Run_partitions permutation X T Obs = Inr parts \<and> length parts = N_SHUFFLES
         \<and> ix = map ((!) (row_order permutation n i)) (permutation i n)
         \<and> mset ix = mset [0..<n]
         \<and> test_set (parts ! i) = rows_of X T Obs (take (20 * n div 100) ix)
         \<and> val_set (parts ! i) = rows_of X T Obs (take (20 * n div 100) (drop (20 * n div 100) ix))
         \<and> train_set (parts ! i) = rows_of X T Obs (drop (2 * (20 * n div 100)) ix)
         \<and> take (20 * n div 100) ix @ take (20 * n div 100) (drop (20 * n div 100) ix)
             @ drop (2 * (20 * n div 100)) ix = ix
         \<and> length (take (20 * n div 100) ix) = 20 * n div 100
         \<and> length (take (20 * n div 100) (drop (20 * n div 100) ix)) = 20 * n div 100
         \<and> set (take (20 * n div 100) ix) \<inter> set (take (20 * n div 100) (drop (20 * n div 100) ix)) = {}
         \<and> set (take (20 * n div 100) ix) \<inter> set (drop (2 * (20 * n div 100)) ix) = {}
         \<and> set (take (20 * n div 100) (drop (20 * n div 100) ix))
             \<inter> set (drop (2 * (20 * n div 100)) ix) = {}"
proof -
  define ix where "ix = row_order permutation n (Suc i)"
  let ?parts = "map (partitions_at permutation X T Obs) [0..<N_SHUFFLES]"
  have start: "(X, T, Obs) = rows_of X T Obs (row_order permutation n 0)"
    using assms(1-3) by (simp add: rows_of_def) (metis map_nth)
  have "run_shuffles permutation [0..<0 + N_SHUFFLES] (rows_of X T Obs (row_order permutation n 0))
      = Inr (map (partitions_at permutation X T Obs) [0..<0 + N_SHUFFLES])"
    using assms(4) assms(1) by (intro run_shuffles_rows) simp_all
  with start have run: "Run_partitions permutation X T Obs = Inr ?parts"
    by (simp add: Run_partitions_def)
  have at_i: "?parts ! i = partitions_at permutation X T Obs i"
    using assms(5) by simp
  have perm: "mset ix = mset [0..<n]"
    unfolding ix_def using assms(4,5) by (intro row_order_perm) simp
  then have len: "length ix = n"
    by (metis length_upt mset_eq_length minus_nat.diff_0)
  from perm have dist: "distinct ix"
    by (metis distinct_upt mset_eq_imp_distinct_iff)
  have f: "fold_size_of (length ix) = 20 * n div 100"
    by (simp only: len fold_size_of_def)
  have t: "test_rows ix = take (20 * n div 100) ix"
    and v: "val_rows ix = take (20 * n div 100) (drop (20 * n div 100) ix)"
    and tr: "train_rows ix = drop (2 * (20 * n div 100)) ix"
    by (simp_all only: test_rows_def val_rows_def train_rows_def f)
  have "partitions_at permutation X T Obs i
      = \<lparr> train_set = rows_of X T Obs (train_rows ix),
          test_set = rows_of X T Obs (test_rows ix),
          val_set = rows_of X T Obs (val_rows ix) \<rparr>"
    unfolding partitions_at_def Let_def ix_def assms(1) ..
  then have sets: "test_set (?parts ! i) = rows_of X T Obs (take (20 * n div 100) ix)"
    "val_set (?parts ! i) = rows_of X T Obs (take (20 * n div 100) (drop (20 * n div 100) ix))"
    "train_set (?parts ! i) = rows_of X T Obs (drop (2 * (20 * n div 100)) ix)"
    unfolding at_i by (simp_all only: t v tr partitions.select_convs)
  note split = row_split [of ix, unfolded t v tr]
  note sizes = row_sizes(1,2) [of ix, unfolded t v f]
  note disj = rows_disjoint [OF dist, unfolded t v tr]
  have "ix = map ((!) (row_order permutation n i)) (permutation i n)"
    by (simp add: ix_def)
  with run perm sets split sizes disj show ?thesis
    by (intro exI [of _ ?parts] exI [of _ ix] conjI) simp_all
qed

lemma mset_rotate_eq: "mset (rotate k xs) = mset xs"
proof -
  have "mset (drop m xs @ take m xs) = mset (take m xs @ drop m xs)" for m
    by (simp only: mset_append add.commute)
  then show ?thesis
    by (simp add: rotate_drop_take)
qed

lemma example_ix:
  "map ((!) (row_order example_permutation 5 1)) (example_permutation 1 5) = [3, 4, 0, 1, 2]"
  by code_simp

theorem C9_shuffle_partitions_witness:
  "\<exists>parts. Run_partitions example_permutation [''a'', ''b'', ''c'', ''d'', ''e'']
              [Fin 1, Fin 2, Fin 3, Fin 4, Fin 5] [1, 0, 1, 0, 1] = Inr parts
     \<and> test_set (parts ! 1) = ([''d''], [Fin 4], [0])
     \<and> val_set (parts ! 1) = ([''e''], [Fin 5], [1])
     \<and> train_set (parts ! 1) = ([''a'', ''b'', ''c''], [Fin 1, Fin 2, Fin 3], [1, 0, 1])"
proof -
  let ?X = "[''a'', ''b'', ''c'', ''d'', ''e'']"
  let ?T = "[Fin 1, Fin 2, Fin 3, Fin 4, Fin 5]"
  let ?O = "[1, 0, 1, 0, 1 :: int]"
  have x: "length ?X = 5" and t: "length ?T = 5" and ob: "length ?O = 5"
    by simp_all
  have p: "\<forall>seed<N_SHUFFLES. mset (example_permutation seed 5) = mset [0..<5]"
    by (simp only: example_permutation_def mset_rotate_eq) simp
  have i: "1 < N_SHUFFLES"
    by (simp add: N_SHUFFLES_def)
  from C9_shuffle_partitions [where permutation = example_permutation and n = 5 and i = 1,
         OF x t ob p i]
  obtain parts where
    run: "Run_partitions example_permutation ?X ?T ?O = Inr parts"
    and tst: "test_set (parts ! 1) = rows_of ?X ?T ?O (take (20 * 5 div 100) [3, 4, 0, 1, 2])"
    and vl: "val_set (parts ! 1)
               = rows_of ?X ?T ?O (take (20 * 5 div 100) (drop (20 * 5 div 100) [3, 4, 0, 1, 2]))"
    and trn: "train_set (parts ! 1) = rows_of ?X ?T ?O (drop (2 * (20 * 5 div 100)) [3, 4, 0, 1, 2])"
    unfolding example_ix by blast
  from tst vl trn have "test_set (parts ! 1) = ([''d''], [Fin 4], [0])
     \<and> val_set (parts ! 1) = ([''e''], [Fin 5], [1])
     \<and> train_set (parts ! 1) = ([''a'', ''b'', ''c''], [Fin 1, Fin 2, Fin 3], [1, 0, 1])"
    by (simp add: rows_of_def)
  with run show ?thesis by blast
qed

section \<open>Properties of the feature ranking\<close>

lemma feature_scores_nth:
  "c < n_features \<Longrightarrow>
   feature_scores np_mean n_features Gradients ! c = fneg (abs_mean np_mean Gradients c)"
  by (simp add: feature_scores_def mean_axis0_def abs_mean_def)

lemma feature_scores_length: "length (feature_scores np_mean n_features Gradients) = n_features"
  by (simp add: feature_scores_def mean_axis0_def)

lemma np_less_fneg: "\<not> np_less (fneg b) (fneg a) \<longleftrightarrow> not_below a b"
  by (cases a; cases b) (simp_all add: np_less_def not_below_def)

lemma sorted_wrt_take_drop:
  assumes "sorted_wrt P xs"
  shows "sorted_wrt P (take k xs) \<and> (\<forall>x\<in>set (take k xs). \<forall>y\<in>set (drop k xs). P x y)"
proof -
  from assms have "sorted_wrt P (take k xs @ drop k xs)" by simp
  then show ?thesis unfolding sorted_wrt_append by blast
qed

text \<open>
  C7 (amended). Whatever \<^verbatim>\<open>np.mean\<close> returns on the columns, with an \<^verbatim>\<open>argsort\<close> that
  keeps numpy's promise \<^verbatim>\<open>Order[0:N]\<close> holds \<open>min N n_features\<close> distinct feature columns
  in descending order of the absolute mean gradient, a NaN score counting as the
  smallest, and no column left out has a larger score than a column selected. The order
  among columns of equal score is the one \<^verbatim>\<open>argsort\<close> gives.
\<close>

theorem C7_top_features_by_abs_mean:
  assumes "argsort (feature_scores np_mean n_features Gradients) = Some order"
      and "argsort_ok order (feature_scores np_mean n_features Gradients)"
      and "0 \<le> N"
  shows "top_features np_mean argsort n_features Gradients N = Some (take (nat N) order)
       \<and> length (take (nat N) order) = min (nat N) n_features
       \<and> distinct (take (nat N) order)
       \<and> set (take (nat N) order) \<subseteq> {0..<n_features}
       \<and> sorted_wrt (\<lambda>i j. not_below (abs_mean np_mean Gradients i) (abs_mean np_mean Gradients j))
           (take (nat N) order)
       \<and> (\<forall>i\<in>set (take (nat N) order).
            \<forall>j<n_features. j \<notin> set (take (nat N) order) \<longrightarrow>
              not_below (abs_mean np_mean Gradients i) (abs_mean np_mean Gradients j))"
proof -
  let ?p = "n_features"
  let ?k = "nat N"
  let ?scores = "feature_scores np_mean n_features Gradients"
  let ?desc = "\<lambda>i j. not_below (abs_mean np_mean Gradients i) (abs_mean np_mean Gradients j)"
  have top: "top_features np_mean argsort n_features Gradients N = Some (take ?k order)"
    using assms(1,3) by (simp add: top_features_def Order_def slice_to_def)
  from assms(2) have perm: "mset order = mset [0..<?p]"
    and srt: "sorted_wrt (\<lambda>i j. \<not> np_less (?scores ! j) (?scores ! i)) order"
    by (simp_all add: argsort_ok_def feature_scores_length)
  from perm have len: "length order = ?p"
    by (metis length_upt mset_eq_length minus_nat.diff_0)
  from perm have dist: "distinct order"
    by (metis distinct_upt mset_eq_imp_distinct_iff)
  from perm have elems: "set order = {0..<?p}"
    by (metis mset_eq_setD set_upt)
  have "sorted_wrt ?desc order"
  proof (rule sorted_wrt_mono_rel [OF _ srt])
    fix i j
    assume "i \<in> set order" "j \<in> set order"
      and "\<not> np_less (?scores ! j) (?scores ! i)"
    with elems show "?desc i j"
      by (simp add: feature_scores_nth np_less_fneg)
  qed
  from sorted_wrt_take_drop [OF this, of ?k]
  have s1: "sorted_wrt ?desc (take ?k order)"
    and s2: "\<forall>x\<in>set (take ?k order). \<forall>y\<in>set (drop ?k order). ?desc x y"
    by simp_all
  have rest: "j \<in> set (drop ?k order)" if "j < ?p" "j \<notin> set (take ?k order)" for j
  proof -
    from that(1) elems have "j \<in> set (take ?k order @ drop ?k order)" by simp
    with that(2) show ?thesis by (simp only: set_append) blast
  qed
  have "length (take ?k order) = min ?k ?p"
    using len by simp
  moreover have "distinct (take ?k order)"
    using dist by simp
  moreover have "set (take ?k order) \<subseteq> {0..<?p}"
    using elems set_take_subset [of ?k order] by blast
  moreover have "\<forall>i\<in>set (take ?k order). \<forall>j<?p. j \<notin> set (take ?k order) \<longrightarrow> ?desc i j"
    using s2 rest by blast
  ultimately show ?thesis
    using s1 top by blast
qed

lemma exact_mean_single: "exact_mean [Fin x] = Fin x"
  by (simp add: exact_mean_def fdiv_def)

lemma order3: "np_argsort [Fin (- 1), Fin (- 2), Fin (- 1)] = Some [1, 0, 2]"
  by code_simp

theorem C7_top_features_by_abs_mean_witness:
  "feature_scores exact_mean 3 [[Fin 1, Fin (- 3), Fin 2], [Fin 1, Fin (- 1), Fin 0]]
     = [Fin (- 1), Fin (- 2), Fin (- 1)]
   \<and> np_argsort [Fin (- 1), Fin (- 2), Fin (- 1)] = Some [1, 0, 2]
   \<and> argsort_ok [1, 0, 2] [Fin (- 1), Fin (- 2), Fin (- 1)]
   \<and> top_features exact_mean np_argsort 3 [[Fin 1, Fin (- 3), Fin 2], [Fin 1, Fin (- 1), Fin 0]] 2
       = Some [1, 0]
   \<and> map (abs_mean exact_mean [[Fin 1, Fin (- 3), Fin 2], [Fin 1, Fin (- 1), Fin 0]]) [0, 1, 2]
       = [Fin 1, Fin 2, Fin 1]"
proof -
  let ?G = "[[Fin 1, Fin (- 3), Fin 2], [Fin 1, Fin (- 1), Fin 0]]"
  have scores: "feature_scores exact_mean 3 ?G = [Fin (- 1), Fin (- 2), Fin (- 1)]"
    by (simp add: feature_scores_def mean_axis0_def exact_mean_def fdiv_def column_def
        upt_rec numeral_3_eq_3)
  have order: "np_argsort (feature_scores exact_mean 3 ?G) = Some [1, 0, 2]"
    unfolding scores by (rule order3)
  have ok: "argsort_ok [1, 0, 2] (feature_scores exact_mean 3 ?G)"
    unfolding scores argsort_ok_def by (simp add: np_less_def upt_rec numeral_3_eq_3)
  have n: "(0::int) \<le> 2"
    by simp
  have means: "map (abs_mean exact_mean ?G) [0, 1, 2] = [Fin 1, Fin 2, Fin 1]"
    by (simp add: abs_mean_def exact_mean_def fdiv_def column_def)
  from C7_top_features_by_abs_mean [where argsort = np_argsort and np_mean = exact_mean
      and n_features = 3 and Gradients = ?G and order = "[1, 0, 2]" and N = 2, OF order ok n]
  have "top_features exact_mean np_argsort 3 ?G 2 = Some [1, 0]"
    by simp
  with scores order ok means show ?thesis
    by simp
qed

lemma scores18:
  "feature_scores exact_mean 18 [replicate 18 (Fin 1)] = replicate 18 (Fin (- 1))"
  by (rule nth_equalityI)
    (simp_all add: feature_scores_def mean_axis0_def column_def exact_mean_single)

lemma order18:
  "np_argsort (replicate 18 (Fin (- 1)))
     = Some [0, 15, 14, 13, 12, 11, 10, 9, 8, 7, 6, 5, 4, 3, 2, 1, 16, 17]"
  by code_simp

text \<open>
  One sample and eighteen features of gradient 1, so eighteen equal scores: numpy's
  quicksort returns the columns in the order 0, 15, 14, ..., 1, 16, 17, and the two top
  features are the columns 0 and 15. Equal scores are not ranked by ascending feature
  index.
\<close>

theorem C7_ties_not_by_index_counterexample:
  "feature_scores exact_mean 18 [replicate 18 (Fin 1)] = replicate 18 (Fin (- 1))
   \<and> Order exact_mean np_argsort 18 [replicate 18 (Fin 1)]
       = Some [0, 15, 14, 13, 12, 11, 10, 9, 8, 7, 6, 5, 4, 3, 2, 1, 16, 17]
   \<and> top_features exact_mean np_argsort 18 [replicate 18 (Fin 1)] 2 = Some [0, 15]"
  by (simp add: top_features_def Order_def scores18 order18 slice_to_def)

section \<open>Properties of the sample clustering\<close>

lemma example_pdist:
  "pdist correlation example_samples = [Fin 2, Fin (3 / 2), Fin (1 / 2), Fin (1 / 2), Fin (3 / 2), Fin 2]"
  by (simp add: pdist_def correlation_def centered_def dot_def fdiv_def example_samples_def
      upt_rec eval_nat_numeral Let_def)

lemma example_SampleDist:
  "SampleDist example_samples
     = [[Fin 0, Fin 2, Fin (3 / 2), Fin (1 / 2)],
        [Fin 2, Fin 0, Fin (1 / 2), Fin (3 / 2)],
        [Fin (3 / 2), Fin (1 / 2), Fin 0, Fin 2],
        [Fin (1 / 2), Fin (3 / 2), Fin 2, Fin 0]]"
proof -
  have "squareform 4 [Fin 2, Fin (3 / 2), Fin (1 / 2), Fin (1 / 2), Fin (3 / 2), Fin 2]
     = [[Fin 0, Fin 2, Fin (3 / 2), Fin (1 / 2)],
        [Fin 2, Fin 0, Fin (1 / 2), Fin (3 / 2)],
        [Fin (3 / 2), Fin (1 / 2), Fin 0, Fin 2],
        [Fin (1 / 2), Fin (3 / 2), Fin 2, Fin 0]]"
    by code_simp
  moreover have "length example_samples = 4"
    by (simp add: example_samples_def)
  ultimately show ?thesis
    by (simp only: SampleDist_def example_pdist)
qed

lemma example_linkage_distances:
  "SampleLinkage_distances example_samples
     = [Fin 2, Fin (9 / 5), Fin (1 / 5), Fin (1 / 5), Fin (9 / 5), Fin 2]"
  unfolding SampleLinkage_distances_def example_SampleDist
  by (simp add: linkage_distances_def pdist_def correlation_f_def correlation_def centered_def
      dot_def fdiv_def upt_rec eval_nat_numeral Let_def)

text \<open>
  C4 (the code departs from the claim). The correlation distances between the four
  example samples are \<open>2, 3/2, 1/2, 1/2, 3/2, 2\<close>. \<^verbatim>\<open>linkage\<close> is handed their square
  form, a two-dimensional array, so the average-linkage clustering runs on the
  correlation distances between the rows of that matrix, \<open>2, 9/5, 1/5, 1/5, 9/5, 2\<close>,
  and not on the distances between the samples.
\<close>

theorem C4_linkage_on_rows_of_distance_matrix:
  "pdist correlation example_samples
     = [Fin 2, Fin (3 / 2), Fin (1 / 2), Fin (1 / 2), Fin (3 / 2), Fin 2]
   \<and> SampleLinkage lib example_samples
     = average_linkage lib [Fin 2, Fin (9 / 5), Fin (1 / 5), Fin (1 / 5), Fin (9 / 5), Fin 2]"
  using example_linkage_distances
  by (simp add: example_pdist SampleLinkage_def SampleLinkage_distances_def)

end
